theory Spec2Isabelle
  imports Main
begin

section \<open>JavaScript strings and the string built-ins the parser calls\<close>

text \<open>
  A JavaScript string is a sequence of UTF-16 code units; \<open>length\<close>, indexing,
  \<open>charCodeAt\<close> and the regular expressions of the parser (none of which has the
  \<open>u\<close> flag) all count code units. A string is therefore a list of code units, each a
  natural number below \<open>65536\<close>. A \<open>Buffer\<close> is a list of bytes, each below \<open>256\<close>.
\<close>

type_synonym jsstring = "nat list"
type_synonym buffer = "nat list"

text \<open>An ASCII literal, as a JavaScript string.\<close>

definition js :: "string \<Rightarrow> jsstring" where
  "js s = map of_char s"

definition CR :: nat where "CR = 13"
definition LF :: nat where "LF = 10"
definition DQUOTE :: nat where "DQUOTE = 34"
definition SQUOTE :: nat where "SQUOTE = 39"

text \<open>
  ECMAScript's WhiteSpace and LineTerminator code points: what \<open>trim\<close> strips and what
  \<open>\s\<close> matches in a regular expression.
\<close>

definition isWhiteSpace :: "nat \<Rightarrow> bool" where
  "isWhiteSpace c =
     (c = 9 \<or> c = 10 \<or> c = 11 \<or> c = 12 \<or> c = 13 \<or> c = 32 \<or> c = 160 \<or> c = 5760 \<or>
      (8192 \<le> c \<and> c \<le> 8202) \<or> c = 8232 \<or> c = 8233 \<or> c = 8239 \<or> c = 8287 \<or>
      c = 12288 \<or> c = 65279)"

definition trimStart :: "jsstring \<Rightarrow> jsstring" where
  "trimStart s = dropWhile isWhiteSpace s"

definition trimEnd :: "jsstring \<Rightarrow> jsstring" where
  "trimEnd s = rev (dropWhile isWhiteSpace (rev s))"

definition trim :: "jsstring \<Rightarrow> jsstring" where
  "trim s = trimEnd (trimStart s)"

text \<open>
  \<open>toLowerCase\<close> on the letters A to Z. Code units outside that range are left as they
  are: their case mapping is the platform's Unicode table, and no comparison the parser
  makes on a lower-cased string involves a character that a non-ASCII letter maps to.
\<close>

definition lowerUnit :: "nat \<Rightarrow> nat" where
  "lowerUnit c = (if 65 \<le> c \<and> c \<le> 90 then c + 32 else c)"

definition toLowerCase :: "jsstring \<Rightarrow> jsstring" where
  "toLowerCase s = map lowerUnit s"

fun startsWith :: "jsstring \<Rightarrow> jsstring \<Rightarrow> bool" where
  "startsWith s [] = True"
| "startsWith [] (p # ps) = False"
| "startsWith (c # cs) (p # ps) = (c = p \<and> startsWith cs ps)"

fun includesStr :: "jsstring \<Rightarrow> jsstring \<Rightarrow> bool" where
  "includesStr [] p = (p = [])"
| "includesStr (c # cs) p = (startsWith (c # cs) p \<or> includesStr cs p)"

text \<open>
  \<open>headers.get(key) || dflt\<close>: the default is taken when the key is absent and also when
  its value is the empty string.
\<close>

definition getOr :: "(jsstring \<rightharpoonup> jsstring) \<Rightarrow> jsstring \<Rightarrow> jsstring \<Rightarrow> jsstring" where
  "getOr headers key dflt =
     (case headers key of None \<Rightarrow> dflt | Some v \<Rightarrow> if v = [] then dflt else v)"

text \<open>The decimal digits of a number, as a template literal prints it.\<close>

fun decimal :: "nat \<Rightarrow> jsstring" where
  "decimal n = (if n < 10 then [48 + n] else decimal (n div 10) @ [48 + n mod 10])"

declare decimal.simps [simp del]

subsection \<open>Regular expressions\<close>

text \<open>
  A regular expression is modelled by a backtracking matcher in continuation-passing
  style, as the ECMAScript specification defines matching: each combinator takes the
  continuation that matches the rest of the pattern, tries its alternatives in the
  pattern's priority order (greedy first) and yields the first success. A continuation
  gets the input that is left.
\<close>

type_synonym 'a cont = "jsstring \<Rightarrow> 'a option"

text \<open>One code unit of a class.\<close>

definition rxChar :: "(nat \<Rightarrow> bool) \<Rightarrow> 'a cont \<Rightarrow> 'a cont" where
  "rxChar P k s = (case s of [] \<Rightarrow> None | c # cs \<Rightarrow> if P c then k cs else None)"

text \<open>A literal, and a literal under the flag \<open>i\<close> (the literals used are ASCII).\<close>

fun rxLit :: "jsstring \<Rightarrow> 'a cont \<Rightarrow> 'a cont" where
  "rxLit [] k s = k s"
| "rxLit (p # ps) k s = rxChar (\<lambda>c. c = p) (rxLit ps k) s"

fun rxLitI :: "jsstring \<Rightarrow> 'a cont \<Rightarrow> 'a cont" where
  "rxLitI [] k s = k s"
| "rxLitI (p # ps) k s = rxChar (\<lambda>c. lowerUnit c = lowerUnit p) (rxLitI ps k) s"

text \<open>\<open>r?\<close>: with \<open>r\<close> first, without it when the rest fails.\<close>

definition rxOpt :: "('a cont \<Rightarrow> 'a cont) \<Rightarrow> 'a cont \<Rightarrow> 'a cont" where
  "rxOpt r k s = (case r k s of Some v \<Rightarrow> Some v | None \<Rightarrow> k s)"

text \<open>\<open>[class]*\<close> and \<open>[class]+\<close>: the longest run first, giving back one code unit at a time.\<close>

fun rxStar :: "(nat \<Rightarrow> bool) \<Rightarrow> 'a cont \<Rightarrow> 'a cont" where
  "rxStar P k [] = k []"
| "rxStar P k (c # cs) =
     (if P c then (case rxStar P k cs of Some v \<Rightarrow> Some v | None \<Rightarrow> k (c # cs))
      else k (c # cs))"

definition rxPlus :: "(nat \<Rightarrow> bool) \<Rightarrow> 'a cont \<Rightarrow> 'a cont" where
  "rxPlus P k = rxChar P (rxStar P k)"

text \<open>
  The capturing groups \<open>([class]*)\<close> and \<open>([class]+)\<close>: the continuation gets the captured
  text.
\<close>

fun rxStarG :: "(nat \<Rightarrow> bool) \<Rightarrow> (jsstring \<Rightarrow> 'a cont) \<Rightarrow> jsstring \<Rightarrow> 'a cont" where
  "rxStarG P k g [] = k g []"
| "rxStarG P k g (c # cs) =
     (if P c then (case rxStarG P k (g @ [c]) cs of Some v \<Rightarrow> Some v | None \<Rightarrow> k g (c # cs))
      else k g (c # cs))"

definition rxPlusG :: "(nat \<Rightarrow> bool) \<Rightarrow> (jsstring \<Rightarrow> 'a cont) \<Rightarrow> 'a cont" where
  "rxPlusG P k s = (case s of [] \<Rightarrow> None | c # cs \<Rightarrow> if P c then rxStarG P k [c] cs else None)"

text \<open>\<open>$\<close> (without the flag \<open>m\<close>): the end of the input.\<close>

definition rxEnd :: "'a cont \<Rightarrow> 'a cont" where
  "rxEnd k s = (if s = [] then k s else None)"

text \<open>The end of the pattern: the match succeeds with its groups and the input left.\<close>

definition rxDone :: "'a \<Rightarrow> ('a \<times> jsstring) cont" where
  "rxDone v s = Some (v, s)"

text \<open>
  The leftmost match of a pattern in a string, as \<open>search\<close> and a non-global \<open>match\<close>
  find it: its index and its result.
\<close>

fun reFirst :: "'a cont \<Rightarrow> jsstring \<Rightarrow> (nat \<times> 'a) option" where
  "reFirst m [] = map_option (Pair 0) (m [])"
| "reFirst m (c # cs) =
     (case m (c # cs) of
        Some v \<Rightarrow> Some (0, v)
      | None \<Rightarrow> map_option (\<lambda>(i, v). (Suc i, v)) (reFirst m cs))"

definition reSearch :: "'a cont \<Rightarrow> jsstring \<Rightarrow> nat option" where
  "reSearch m s = map_option fst (reFirst m s)"

definition reMatch :: "('a \<times> jsstring) cont \<Rightarrow> jsstring \<Rightarrow> 'a option" where
  "reMatch m s = map_option (\<lambda>(i, g, rest). g) (reFirst m s)"

text \<open>
  \<open>replace\<close> with a global pattern, and \<open>split\<close>. The function \<open>f\<close> gets the matched text
  and the groups. The patterns of the parser never match the empty string, so a match
  consumes at least one code unit.
\<close>

fun reReplace :: "('a \<times> jsstring) cont \<Rightarrow> (jsstring \<Rightarrow> 'a \<Rightarrow> jsstring) \<Rightarrow> jsstring \<Rightarrow> jsstring" where
  "reReplace m f [] = []"
| "reReplace m f (c # cs) =
     (case m (c # cs) of
        Some (g, rest) \<Rightarrow>
          f (take (Suc (length cs) - length rest) (c # cs)) g @
          reReplace m f (drop (length cs - length rest) cs)
      | None \<Rightarrow> c # reReplace m f cs)"

fun reSplitFrom :: "('a \<times> jsstring) cont \<Rightarrow> jsstring \<Rightarrow> jsstring \<Rightarrow> jsstring list" where
  "reSplitFrom m cur [] = [cur]"
| "reSplitFrom m cur (c # cs) =
     (case m (c # cs) of
        Some (g, rest) \<Rightarrow> cur # reSplitFrom m [] (drop (length cs - length rest) cs)
      | None \<Rightarrow> reSplitFrom m (cur @ [c]) cs)"

definition reSplit :: "('a \<times> jsstring) cont \<Rightarrow> jsstring \<Rightarrow> jsstring list" where
  "reSplit m s = reSplitFrom m [] s"

text \<open>\<open>replace\<close> with a pattern anchored at the start (\<open>^\<close>) and an empty replacement.\<close>

definition reStripPrefix :: "('a \<times> jsstring) cont \<Rightarrow> jsstring \<Rightarrow> jsstring" where
  "reStripPrefix m s = (case m s of Some (g, rest) \<Rightarrow> rest | None \<Rightarrow> s)"

subsection \<open>Buffers, UTF-8, base64 and URI decoding\<close>

text \<open>\<open>Buffer.from(bytes)\<close> of an array of numbers keeps each number modulo 256.\<close>

definition bufferFromArray :: "nat list \<Rightarrow> buffer" where
  "bufferFromArray bytes = map (\<lambda>b. b mod 256) bytes"

text \<open>\<open>Buffer.from(s, 'binary')\<close>: one byte for each code unit, its low eight bits.\<close>

definition bufferFromBinary :: "jsstring \<Rightarrow> buffer" where
  "bufferFromBinary s = map (\<lambda>c. c mod 256) s"

text \<open>
  \<open>buffer.toString('utf-8')\<close>. The decoder never fails: a byte that cannot continue or
  start a well-formed sequence yields U+FFFD, and decoding goes on at that byte. The state
  is the number of continuation bytes still needed, the code point so far, and the range
  allowed for the next byte.
\<close>

function utf8CodePoints :: "nat \<Rightarrow> nat \<Rightarrow> nat \<Rightarrow> nat \<Rightarrow> buffer \<Rightarrow> nat list" where
  "utf8CodePoints needed cp lo hi [] = (if needed = 0 then [] else [65533])"
| "utf8CodePoints needed cp lo hi (b # bs) =
     (if needed = 0 then
        (if b \<le> 127 then b # utf8CodePoints 0 0 128 191 bs
         else if 194 \<le> b \<and> b \<le> 223 then utf8CodePoints 1 (b mod 32) 128 191 bs
         else if 224 \<le> b \<and> b \<le> 239 then
           utf8CodePoints 2 (b mod 16) (if b = 224 then 160 else 128) (if b = 237 then 159 else 191) bs
         else if 240 \<le> b \<and> b \<le> 244 then
           utf8CodePoints 3 (b mod 8) (if b = 240 then 144 else 128) (if b = 244 then 143 else 191) bs
         else 65533 # utf8CodePoints 0 0 128 191 bs)
      else if b < lo \<or> hi < b then 65533 # utf8CodePoints 0 0 128 191 (b # bs)
      else if needed = 1 then (cp * 64 + b mod 64) # utf8CodePoints 0 0 128 191 bs
      else utf8CodePoints (needed - 1) (cp * 64 + b mod 64) 128 191 bs)"
  by pat_completeness auto
termination
  by (relation "measures [\<lambda>(needed, cp, lo, hi, bs). length bs, \<lambda>(needed, cp, lo, hi, bs). needed]")
     auto

declare utf8CodePoints.simps [simp del]

text \<open>A code point as UTF-16 code units.\<close>

definition utf16Encode :: "nat \<Rightarrow> jsstring" where
  "utf16Encode cp =
     (if cp < 65536 then [cp]
      else [55296 + (cp - 65536) div 1024, 56320 + (cp - 65536) mod 1024])"

definition bufferToString :: "buffer \<Rightarrow> jsstring" where
  "bufferToString buf = concat (map utf16Encode (utf8CodePoints 0 0 128 191 buf))"

text \<open>
  \<open>Buffer.from(s, 'base64')\<close>. The decoder is lenient and never fails: it reads the low
  eight bits of each code unit, accepts the standard and the URL-safe alphabet, skips
  every other character, stops at the first \<open>=\<close>, and turns each group of four sextets
  into three bytes (a last group of three into two bytes, of two into one byte).
\<close>

definition unbase64 :: "nat \<Rightarrow> nat option" where
  "unbase64 c =
     (if 65 \<le> c \<and> c \<le> 90 then Some (c - 65)
      else if 97 \<le> c \<and> c \<le> 122 then Some (c - 71)
      else if 48 \<le> c \<and> c \<le> 57 then Some (c + 4)
      else if c = 43 \<or> c = 45 then Some 62
      else if c = 47 \<or> c = 95 then Some 63
      else None)"

fun base64Sextets :: "jsstring \<Rightarrow> nat list" where
  "base64Sextets [] = []"
| "base64Sextets (c # cs) =
     (if c mod 256 = 61 then []
      else (case unbase64 (c mod 256) of
              Some v \<Rightarrow> v # base64Sextets cs
            | None \<Rightarrow> base64Sextets cs))"

fun base64Bytes :: "nat list \<Rightarrow> buffer" where
  "base64Bytes (a # b # c # d # r) =
     (a * 4 + b div 16) # ((b mod 16) * 16 + c div 4) # ((c mod 4) * 64 + d) # base64Bytes r"
| "base64Bytes [a, b, c] = [a * 4 + b div 16, (b mod 16) * 16 + c div 4]"
| "base64Bytes [a, b] = [a * 4 + b div 16]"
| "base64Bytes [a] = []"
| "base64Bytes [] = []"

definition bufferFromBase64 :: "jsstring \<Rightarrow> buffer" where
  "bufferFromBase64 s = base64Bytes (base64Sextets s)"

text \<open>Hexadecimal digits, and \<open>parseInt(hex, 16)\<close> of two of them.\<close>

definition isHexDigit :: "nat \<Rightarrow> bool" where
  "isHexDigit c = ((48 \<le> c \<and> c \<le> 57) \<or> (65 \<le> c \<and> c \<le> 70) \<or> (97 \<le> c \<and> c \<le> 102))"

definition hexValue :: "nat \<Rightarrow> nat" where
  "hexValue c = (if c \<le> 57 then c - 48 else if c \<le> 70 then c - 55 else c - 87)"

definition parseHex2 :: "nat \<Rightarrow> nat \<Rightarrow> nat" where
  "parseHex2 h l = 16 * hexValue h + hexValue l"

text \<open>
  The errors a built-in can throw into the parser. \<open>decodeURIComponent\<close> throws a
  \<open>URIError\<close> when a \<open>%\<close> is not followed by two hexadecimal digits, or when the escaped
  octets are not the UTF-8 encoding of a code point.
\<close>

datatype error = URIError

definition tryCatch :: "error + 'a \<Rightarrow> (error \<Rightarrow> 'a) \<Rightarrow> 'a" where
  "tryCatch body handler = (case body of Inl e \<Rightarrow> handler e | Inr v \<Rightarrow> v)"

definition hexOctet :: "jsstring \<Rightarrow> nat option" where
  "hexOctet s =
     (case s of
        h # l # r \<Rightarrow> if isHexDigit h \<and> isHexDigit l then Some (parseHex2 h l) else None
      | _ \<Rightarrow> None)"

text \<open>The number of leading one bits of an octet that is at least 128.\<close>

definition leadingOnes :: "nat \<Rightarrow> nat" where
  "leadingOnes b =
     (if b < 192 then 1 else if b < 224 then 2 else if b < 240 then 3
      else if b < 248 then 4 else 5)"

text \<open>The \<open>n\<close> continuation octets \<open>%XX\<close> that follow the first octet of a sequence.\<close>

fun continuationOctets :: "nat \<Rightarrow> jsstring \<Rightarrow> nat list option" where
  "continuationOctets 0 s = Some []"
| "continuationOctets (Suc n) s =
     (case s of
        [] \<Rightarrow> None
      | p # r \<Rightarrow>
          if p = 37 then
            (case hexOctet r of
               None \<Rightarrow> None
             | Some b \<Rightarrow> map_option ((#) b) (continuationOctets n (drop 2 r)))
          else None)"

text \<open>The code point of a well-formed UTF-8 sequence of two to four octets.\<close>

definition isCont :: "nat \<Rightarrow> bool" where
  "isCont b = (128 \<le> b \<and> b \<le> 191)"

definition utf8Sequence :: "nat list \<Rightarrow> nat option" where
  "utf8Sequence octets =
     (case octets of
        [a, b] \<Rightarrow>
          if 194 \<le> a \<and> a \<le> 223 \<and> isCont b then Some ((a mod 32) * 64 + b mod 64) else None
      | [a, b, c] \<Rightarrow>
          if 224 \<le> a \<and> a \<le> 239 \<and> isCont c \<and>
             (if a = 224 then 160 else 128) \<le> b \<and> b \<le> (if a = 237 then 159 else 191)
          then Some (((a mod 16) * 64 + b mod 64) * 64 + c mod 64) else None
      | [a, b, c, d] \<Rightarrow>
          if 240 \<le> a \<and> a \<le> 244 \<and> isCont c \<and> isCont d \<and>
             (if a = 240 then 144 else 128) \<le> b \<and> b \<le> (if a = 244 then 143 else 191)
          then Some ((((a mod 8) * 64 + b mod 64) * 64 + c mod 64) * 64 + d mod 64) else None
      | _ \<Rightarrow> None)"

fun decodeURIComponent :: "jsstring \<Rightarrow> error + jsstring" where
  "decodeURIComponent [] = Inr []"
| "decodeURIComponent (c # cs) =
     (if c \<noteq> 37 then map_sum id ((#) c) (decodeURIComponent cs)
      else
        (case hexOctet cs of
           None \<Rightarrow> Inl URIError
         | Some b \<Rightarrow>
             if b < 128 then map_sum id ((#) b) (decodeURIComponent (drop 2 cs))
             else
               (let n = leadingOnes b in
                if n = 1 \<or> 4 < n then Inl URIError
                else
                  (case continuationOctets (n - 1) (drop 2 cs) of
                     None \<Rightarrow> Inl URIError
                   | Some octets \<Rightarrow>
                       (case utf8Sequence (b # octets) of
                          None \<Rightarrow> Inl URIError
                        | Some v \<Rightarrow>
                            map_sum id ((@) (utf16Encode v))
                              (decodeURIComponent (drop (2 + 3 * (n - 1)) cs)))))))"

section \<open>The URL sanitizer\<close>

definition isSafeUrl :: "jsstring \<Rightarrow> bool" where
  "isSafeUrl url =
     (let trimmed = toLowerCase (trim url) in
        startsWith trimmed (js ''http://'') \<or>
        startsWith trimmed (js ''https://'') \<or>
        startsWith trimmed (js ''mailto:'') \<or>
        startsWith trimmed (js ''cid:''))"

definition sanitizeUrl :: "jsstring \<Rightarrow> jsstring" where
  "sanitizeUrl url = (if isSafeUrl url then url else [])"

section \<open>The data model\<close>

record EmailAddress =
  name :: jsstring
  address :: jsstring

record Attachment =
  filename :: jsstring
  contentType :: jsstring
  content :: buffer
  contentId :: "jsstring option"

text \<open>
  A \<open>Date\<close> object is kept as the string it was constructed from: \<open>new Date(s)\<close> never
  throws and never yields \<open>null\<close>; whether the object is a valid date or \<open>Invalid Date\<close> is
  the platform's \<open>Date.parse\<close>. The field \<open>date\<close> is \<open>None\<close> for \<open>null\<close>.
\<close>

datatype jsdate = NewDate jsstring

record ParsedEmail =
  "from" :: "EmailAddress list"
  to :: "EmailAddress list"
  cc :: "EmailAddress list"
  bcc :: "EmailAddress list"
  subject :: jsstring
  date :: "jsdate option"
  messageId :: jsstring
  textBody :: jsstring
  htmlBody :: jsstring
  attachments :: "Attachment list"

section \<open>Addresses\<close>

text \<open>The pattern \<^verbatim>\<open>/^"?([^"<]*)"?\s*<([^>]+)>$/\<close>, matched at the start of the string.\<close>

definition rxAddress :: "((jsstring \<times> jsstring) \<times> jsstring) cont" where
  "rxAddress =
     rxOpt (rxChar (\<lambda>c. c = 34))
       (rxStarG (\<lambda>c. c \<noteq> 34 \<and> c \<noteq> 60)
          (\<lambda>g1. rxOpt (rxChar (\<lambda>c. c = 34))
             (rxStar isWhiteSpace
                (rxChar (\<lambda>c. c = 60)
                   (rxPlusG (\<lambda>c. c \<noteq> 62)
                      (\<lambda>g2. rxChar (\<lambda>c. c = 62) (rxEnd (rxDone (g1, g2))))))))
          [])"

text \<open>\<^verbatim>\<open>.replace(/^"|"$/g, '')\<close>: a quote at the start and a quote at the end are removed.\<close>

definition stripQuotes :: "jsstring \<Rightarrow> jsstring" where
  "stripQuotes s =
     (let s1 = (if startsWith s [34] then tl s else s)
      in if s1 \<noteq> [] \<and> last s1 = 34 then butlast s1 else s1)"

definition parseEmailAddress :: "jsstring \<Rightarrow> EmailAddress" where
  "parseEmailAddress str0 =
     (let str = trim str0 in
      case rxAddress str of
        Some ((g1, g2), rest) \<Rightarrow> \<lparr>name = stripQuotes (trim g1), address = trim g2\<rparr>
      | None \<Rightarrow> \<lparr>name = [], address = str\<rparr>)"

text \<open>
  The scan of \<open>parseEmailAddresses\<close>. \<open>prev\<close> is \<open>str[i - 1]\<close>, which is \<open>undefined\<close> at
  the first character; the rest of the arguments are the loop's variables.
\<close>

fun addressesLoop ::
  "nat option \<Rightarrow> jsstring \<Rightarrow> jsstring \<Rightarrow> bool \<Rightarrow> bool \<Rightarrow> EmailAddress list \<Rightarrow> EmailAddress list"
where
  "addressesLoop prev [] current inQuotes inAngleBrackets addresses =
     (if trim current \<noteq> [] then addresses @ [parseEmailAddress current] else addresses)"
| "addressesLoop prev (char # cs) current inQuotes inAngleBrackets addresses =
     (if char = 34 \<and> prev \<noteq> Some 92 then
        addressesLoop (Some char) cs (current @ [char]) (\<not> inQuotes) inAngleBrackets addresses
      else if char = 60 \<and> \<not> inQuotes then
        addressesLoop (Some char) cs (current @ [char]) inQuotes True addresses
      else if char = 62 \<and> \<not> inQuotes then
        addressesLoop (Some char) cs (current @ [char]) inQuotes False addresses
      else if char = 44 \<and> \<not> inQuotes \<and> \<not> inAngleBrackets then
        addressesLoop (Some char) cs []  inQuotes inAngleBrackets
          (if trim current \<noteq> [] then addresses @ [parseEmailAddress current] else addresses)
      else addressesLoop (Some char) cs (current @ [char]) inQuotes inAngleBrackets addresses)"

definition parseEmailAddresses :: "jsstring \<Rightarrow> EmailAddress list" where
  "parseEmailAddresses str = (if str = [] then [] else addressesLoop None str [] False False [])"

section \<open>Decoding\<close>

text \<open>
  The loop that \<open>decodeMimeWord\<close> (Q encoding) and \<open>decodeQuotedPrintableToBuffer\<close> both
  run: \<open>=XX\<close> with two hexadecimal digits is one byte, and every other character is pushed
  as its character code. An \<open>=\<close> is an escape only when at least two characters follow it.
\<close>

fun hexEscapeBytes :: "jsstring \<Rightarrow> nat list" where
  "hexEscapeBytes (c # h # l # cs) =
     (if c = 61 \<and> isHexDigit h \<and> isHexDigit l then parseHex2 h l # hexEscapeBytes cs
      else c # hexEscapeBytes (h # l # cs))"
| "hexEscapeBytes (c # cs) = c # hexEscapeBytes cs"
| "hexEscapeBytes [] = []"

text \<open>The pattern \<^verbatim>\<open>/=\?([^?]+)\?([BQ])\?([^?]+)\?=/gi\<close>.\<close>

definition rxCharG :: "(nat \<Rightarrow> bool) \<Rightarrow> (jsstring \<Rightarrow> 'a cont) \<Rightarrow> 'a cont" where
  "rxCharG P k s = (case s of [] \<Rightarrow> None | c # cs \<Rightarrow> if P c then k [c] cs else None)"

definition rxMimeWord :: "((jsstring \<times> jsstring \<times> jsstring) \<times> jsstring) cont" where
  "rxMimeWord =
     rxLit (js ''=?'')
       (rxPlusG (\<lambda>c. c \<noteq> 63)
          (\<lambda>charset. rxLit (js ''?'')
             (rxCharG (\<lambda>c. lowerUnit c = 98 \<or> lowerUnit c = 113)
                (\<lambda>encoding. rxLit (js ''?'')
                   (rxPlusG (\<lambda>c. c \<noteq> 63)
                      (\<lambda>text. rxLit (js ''?='') (rxDone (charset, encoding, text))))))))"

definition upperUnit :: "nat \<Rightarrow> nat" where
  "upperUnit c = (if 97 \<le> c \<and> c \<le> 122 then c - 32 else c)"

definition toUpperCase :: "jsstring \<Rightarrow> jsstring" where
  "toUpperCase s = map upperUnit s"

text \<open>
  The replacement function of \<open>decodeMimeWord\<close>. The body of its \<open>try\<close> returns a string
  or falls through (\<open>None\<close>); the match is returned when it falls through or throws.
\<close>

definition decodeMimeWordMatch :: "jsstring \<Rightarrow> jsstring \<times> jsstring \<times> jsstring \<Rightarrow> jsstring" where
  "decodeMimeWordMatch match groups =
     (case groups of (charset, encoding, text) \<Rightarrow>
        (case tryCatch
                (if toUpperCase encoding = js ''B'' then
                   Inr (Some (bufferToString (bufferFromBase64 text)))
                 else if toUpperCase encoding = js ''Q'' then
                   (let withSpaces = map (\<lambda>c. if c = 95 then 32 else c) text
                    in Inr (Some (bufferToString (bufferFromArray (hexEscapeBytes withSpaces)))))
                 else Inr None)
                (\<lambda>e. None) of
           Some decoded \<Rightarrow> decoded
         | None \<Rightarrow> match))"

definition decodeMimeWord :: "jsstring \<Rightarrow> jsstring" where
  "decodeMimeWord str = reReplace rxMimeWord decodeMimeWordMatch str"

text \<open>The pattern \<^verbatim>\<open>/=\r?\n/g\<close> of the soft line breaks.\<close>

definition rxSoftBreak :: "(unit \<times> jsstring) cont" where
  "rxSoftBreak = rxChar (\<lambda>c. c = 61) (rxOpt (rxChar (\<lambda>c. c = 13)) (rxChar (\<lambda>c. c = 10) (rxDone ())))"

definition decodeQuotedPrintableToBuffer :: "jsstring \<Rightarrow> buffer" where
  "decodeQuotedPrintableToBuffer str =
     (let withoutSoftBreaks = reReplace rxSoftBreak (\<lambda>m g. []) str
      in bufferFromArray (hexEscapeBytes withoutSoftBreaks))"

definition decodeQuotedPrintable :: "jsstring \<Rightarrow> jsstring" where
  "decodeQuotedPrintable str =
     (let buffer = decodeQuotedPrintableToBuffer str
      in tryCatch (Inr (bufferToString buffer)) (\<lambda>e. reReplace rxSoftBreak (\<lambda>m g. []) str))"

text \<open>\<^verbatim>\<open>str.replace(/\s/g, '')\<close>.\<close>

definition removeWhiteSpace :: "jsstring \<Rightarrow> jsstring" where
  "removeWhiteSpace s = filter (\<lambda>c. \<not> isWhiteSpace c) s"

definition decodeBase64 :: "jsstring \<Rightarrow> jsstring" where
  "decodeBase64 str =
     tryCatch (Inr (bufferToString (bufferFromBase64 (removeWhiteSpace str)))) (\<lambda>e. str)"

definition decodeContent :: "jsstring \<Rightarrow> jsstring \<Rightarrow> jsstring" where
  "decodeContent body encoding =
     (if encoding = js ''base64'' then decodeBase64 body
      else if encoding = js ''quoted-printable'' then decodeQuotedPrintable body
      else body)"

definition decodeContentToBuffer :: "jsstring \<Rightarrow> jsstring \<Rightarrow> buffer" where
  "decodeContentToBuffer body encoding =
     (if encoding = js ''base64'' then bufferFromBase64 (removeWhiteSpace body)
      else if encoding = js ''quoted-printable'' then decodeQuotedPrintableToBuffer body
      else bufferFromBinary body)"

section \<open>Headers\<close>

text \<open>The patterns \<^verbatim>\<open>/\r?\n[\t ]+/g\<close>, \<^verbatim>\<open>/\r?\n/\<close> and \<^verbatim>\<open>/\r?\n\r?\n/\<close>.\<close>

definition rxFold :: "(unit \<times> jsstring) cont" where
  "rxFold =
     rxOpt (rxChar (\<lambda>c. c = 13))
       (rxChar (\<lambda>c. c = 10) (rxPlus (\<lambda>c. c = 9 \<or> c = 32) (rxDone ())))"

definition rxNewline :: "(unit \<times> jsstring) cont" where
  "rxNewline = rxOpt (rxChar (\<lambda>c. c = 13)) (rxChar (\<lambda>c. c = 10) (rxDone ()))"

definition rxBlankLine :: "(unit \<times> jsstring) cont" where
  "rxBlankLine =
     rxOpt (rxChar (\<lambda>c. c = 13))
       (rxChar (\<lambda>c. c = 10)
          (rxOpt (rxChar (\<lambda>c. c = 13)) (rxChar (\<lambda>c. c = 10) (rxDone ()))))"

fun indexOf :: "jsstring \<Rightarrow> nat \<Rightarrow> nat option" where
  "indexOf [] x = None"
| "indexOf (c # cs) x = (if c = x then Some 0 else map_option Suc (indexOf cs x))"

text \<open>One iteration of the loop of \<open>parseHeaders\<close> over the lines.\<close>

definition headerLine :: "(jsstring \<rightharpoonup> jsstring) \<Rightarrow> jsstring \<Rightarrow> (jsstring \<rightharpoonup> jsstring)" where
  "headerLine headers line =
     (case indexOf line 58 of
        None \<Rightarrow> headers
      | Some colonIndex \<Rightarrow>
          if 0 < colonIndex then
            headers(toLowerCase (trim (take colonIndex line)) \<mapsto>
                      decodeMimeWord (trim (drop (colonIndex + 1) line)))
          else headers)"

definition parseHeaders :: "jsstring \<Rightarrow> (jsstring \<rightharpoonup> jsstring)" where
  "parseHeaders headerText =
     (let unfoldedText = reReplace rxFold (\<lambda>m g. [32]) headerText;
          lines = reSplit rxNewline unfoldedText
      in foldl headerLine Map.empty lines)"

text \<open>The pattern \<^verbatim>\<open>/boundary\s*=\s*"?([^";]+)"?/i\<close>.\<close>

definition rxBoundaryParam :: "(jsstring \<times> jsstring) cont" where
  "rxBoundaryParam =
     rxLitI (js ''boundary'')
       (rxStar isWhiteSpace
          (rxChar (\<lambda>c. c = 61)
             (rxStar isWhiteSpace
                (rxOpt (rxChar (\<lambda>c. c = 34))
                   (rxPlusG (\<lambda>c. c \<noteq> 34 \<and> c \<noteq> 59)
                      (\<lambda>g. rxOpt (rxChar (\<lambda>c. c = 34)) (rxDone g)))))))"

definition extractBoundary :: "jsstring \<Rightarrow> jsstring option" where
  "extractBoundary ct = reMatch rxBoundaryParam ct"

definition getEncoding :: "(jsstring \<rightharpoonup> jsstring) \<Rightarrow> jsstring" where
  "getEncoding headers = toLowerCase (getOr headers (js ''content-transfer-encoding'') (js ''7bit''))"

definition getContentType :: "(jsstring \<rightharpoonup> jsstring) \<Rightarrow> jsstring" where
  "getContentType headers =
     (let ct = getOr headers (js ''content-type'') (js ''text/plain'')
      in toLowerCase (trim (takeWhile (\<lambda>c. c \<noteq> 59) ct)))"

text \<open>
  The patterns \<^verbatim>\<open>/filename\*?=\s*(?:utf-8'')?["']?([^"';\r\n]+)["']?/i\<close> and
  \<^verbatim>\<open>/name\s*=\s*"?([^";]+)"?/i\<close>.
\<close>

definition rxFilenameParam :: "(jsstring \<times> jsstring) cont" where
  "rxFilenameParam =
     rxLitI (js ''filename'')
       (rxOpt (rxChar (\<lambda>c. c = 42))
          (rxChar (\<lambda>c. c = 61)
             (rxStar isWhiteSpace
                (rxOpt (rxLitI (js ''utf-8'' @ [39, 39]))
                   (rxOpt (rxChar (\<lambda>c. c = 34 \<or> c = 39))
                      (rxPlusG (\<lambda>c. c \<noteq> 34 \<and> c \<noteq> 39 \<and> c \<noteq> 59 \<and> c \<noteq> 13 \<and> c \<noteq> 10)
                         (\<lambda>g. rxOpt (rxChar (\<lambda>c. c = 34 \<or> c = 39)) (rxDone g))))))))"

definition rxNameParam :: "(jsstring \<times> jsstring) cont" where
  "rxNameParam =
     rxLitI (js ''name'')
       (rxStar isWhiteSpace
          (rxChar (\<lambda>c. c = 61)
             (rxStar isWhiteSpace
                (rxOpt (rxChar (\<lambda>c. c = 34))
                   (rxPlusG (\<lambda>c. c \<noteq> 34 \<and> c \<noteq> 59)
                      (\<lambda>g. rxOpt (rxChar (\<lambda>c. c = 34)) (rxDone g)))))))"

text \<open>
  \<open>getFilename\<close> returns a string or \<open>null\<close> (\<open>None\<close>), or throws what
  \<open>decodeURIComponent\<close> throws: the call is not inside a \<open>try\<close>.
\<close>

definition getFilename :: "(jsstring \<rightharpoonup> jsstring) \<Rightarrow> error + jsstring option" where
  "getFilename headers =
     (let disposition = getOr headers (js ''content-disposition'') [];
          ct = getOr headers (js ''content-type'') []
      in case reMatch rxFilenameParam disposition of
           Some g \<Rightarrow> map_sum id (\<lambda>s. Some (decodeMimeWord s)) (decodeURIComponent g)
         | None \<Rightarrow>
             (case reMatch rxNameParam ct of
                Some g \<Rightarrow> Inr (Some (decodeMimeWord g))
              | None \<Rightarrow> Inr None))"

section \<open>MIME parts\<close>

text \<open>
  The separator of the parts: \<open>new RegExp\<close> of \<^verbatim>\<open>--${escapeRegex(boundary)}(?:--)?\<close>.
  \<open>escapeRegex\<close> puts a backslash before every character that is special in a pattern, so
  the pattern matches \<open>--\<close> and the boundary literally, and then \<open>--\<close> when it follows.
\<close>

definition rxBoundary :: "jsstring \<Rightarrow> (unit \<times> jsstring) cont" where
  "rxBoundary boundary = rxLit (js ''--'' @ boundary) (rxOpt (rxLit (js ''--'')) (rxDone ()))"

text \<open>\<open>filename || dflt\<close> and the truth value of \<open>filename\<close>, for a string or \<open>null\<close>.\<close>

definition truthy :: "jsstring option \<Rightarrow> bool" where
  "truthy v = (case v of None \<Rightarrow> False | Some s \<Rightarrow> s \<noteq> [])"

definition orElse :: "jsstring option \<Rightarrow> jsstring \<Rightarrow> jsstring" where
  "orElse v dflt = (case v of None \<Rightarrow> dflt | Some s \<Rightarrow> if s = [] then dflt else s)"

text \<open>
  The part of \<open>parseMimePart\<close> that handles a part which is not a multipart: a body text,
  or an attachment, or nothing.
\<close>

definition parseLeaf ::
  "(jsstring \<rightharpoonup> jsstring) \<Rightarrow> jsstring \<Rightarrow> jsstring \<Rightarrow> jsstring \<Rightarrow> ParsedEmail \<Rightarrow> error + ParsedEmail"
where
  "parseLeaf headers ctype encoding bodyText result =
     (if ctype = js ''text/plain'' then
        (let decoded = decodeContent bodyText encoding
         in Inr (if textBody result = [] then result\<lparr>textBody := decoded\<rparr> else result))
      else if ctype = js ''text/html'' then
        (let decoded = decodeContent bodyText encoding
         in Inr (if htmlBody result = [] then result\<lparr>htmlBody := decoded\<rparr> else result))
      else
        (let disposition = getOr headers (js ''content-disposition'') []
         in case getFilename headers of
              Inl e \<Rightarrow> Inl e
            | Inr fname \<Rightarrow>
                if truthy fname \<or> includesStr disposition (js ''attachment'') \<or>
                   (\<not> startsWith ctype (js ''text/'') \<and> \<not> startsWith ctype (js ''multipart/''))
                then
                  Inr (result\<lparr>attachments := attachments result @
                    [\<lparr>filename =
                        orElse fname (js ''attachment_'' @ decimal (length (attachments result) + 1)),
                      contentType = ctype,
                      content = decodeContentToBuffer bodyText encoding,
                      contentId =
                        map_option (filter (\<lambda>c. c \<noteq> 60 \<and> c \<noteq> 62)) (headers (js ''content-id''))\<rparr>]\<rparr>)
                else Inr result))"

lemma reSplitFrom_size:
  "sum_list (map length (reSplitFrom m cur s)) \<le> length cur + length s"
proof (induction m cur s rule: reSplitFrom.induct)
  case (1 m cur)
  show ?case by simp
next
  case (2 m cur c cs)
  show ?case
  proof (cases "m (c # cs)")
    case None
    with 2 show ?thesis by simp
  next
    case (Some v)
    obtain g rest where v: "v = (g, rest)" by (cases v)
    have "sum_list (map length (reSplitFrom m [] (drop (length cs - length rest) cs)))
            \<le> length cs"
      using 2(2)[OF Some v[symmetric]] by simp
    with Some v show ?thesis by simp
  qed
qed

lemma reSplit_size: "sum_list (map length (reSplit m s)) \<le> length s"
  using reSplitFrom_size[of m "[]" s] by (simp add: reSplit_def)

lemma reFirst_at:
  "reFirst m s = Some (i, v) \<Longrightarrow> i \<le> length s \<and> m (drop i s) = Some v"
proof (induction m s arbitrary: i rule: reFirst.induct)
  case (1 m)
  then show ?case by auto
next
  case (2 m c cs)
  show ?case
  proof (cases "m (c # cs)")
    case (Some w)
    with 2(2) show ?thesis by simp
  next
    case None
    with 2(2) obtain j where j: "reFirst m cs = Some (j, v)" "i = Suc j"
      by (auto split: prod.splits)
    from 2(1)[OF None j(1)] j(2) show ?thesis by simp
  qed
qed

lemma rxChar_shorter:
  assumes "rxChar P k s = Some v"
  shows "\<exists>s'. k s' = Some v \<and> length s' < length s"
proof (cases s)
  case Nil
  with assms show ?thesis by (simp add: rxChar_def)
next
  case (Cons c cs)
  with assms have "k cs = Some v" by (simp add: rxChar_def split: if_splits)
  with Cons show ?thesis by auto
qed

lemma rxOpt_cases:
  assumes "rxOpt r k s = Some v"
  shows "r k s = Some v \<or> k s = Some v"
proof (cases "r k s")
  case None
  with assms show ?thesis by (simp add: rxOpt_def)
next
  case (Some w)
  with assms show ?thesis by (simp add: rxOpt_def)
qed

lemma rxNewline_then:
  assumes "rxOpt (rxChar (\<lambda>c. c = 13)) (rxChar (\<lambda>c. c = 10) k) s = Some v"
  shows "\<exists>s'. k s' = Some v \<and> length s' < length s"
proof -
  from rxOpt_cases[OF assms]
  consider (cr) "rxChar (\<lambda>c. c = 13) (rxChar (\<lambda>c. c = 10) k) s = Some v"
    | (lf) "rxChar (\<lambda>c. c = 10) k s = Some v"
    by fast
  then show ?thesis
  proof cases
    case cr
    from rxChar_shorter[OF cr] obtain s1 where
      s1: "rxChar (\<lambda>c. c = 10) k s1 = Some v" "length s1 < length s" by fast
    from rxChar_shorter[OF s1(1)] obtain s2 where
      "k s2 = Some v" "length s2 < length s1" by fast
    with s1(2) have "k s2 = Some v \<and> length s2 < length s" by simp
    then show ?thesis ..
  next
    case lf
    from rxChar_shorter[OF lf] show ?thesis .
  qed
qed

lemma rxBlankLine_rest:
  assumes "rxBlankLine t = Some (g, rest)"
  shows "length rest + 2 \<le> length t"
proof -
  have "rxOpt (rxChar (\<lambda>c. c = 13)) (rxChar (\<lambda>c. c = 10)
          (rxOpt (rxChar (\<lambda>c. c = 13)) (rxChar (\<lambda>c. c = 10) (rxDone ())))) t = Some (g, rest)"
    using assms by (simp only: rxBlankLine_def)
  from rxNewline_then[OF this] obtain s1 where s1:
    "rxOpt (rxChar (\<lambda>c. c = 13)) (rxChar (\<lambda>c. c = 10) (rxDone ())) s1 = Some (g, rest)"
    "length s1 < length t" by fast
  from rxNewline_then[OF s1(1)] obtain s2 where
    s2: "rxDone () s2 = Some (g, rest)" "length s2 < length s1" by fast
  from s2(1) have "s2 = rest" by (simp add: rxDone_def)
  with s1(2) s2(2) show ?thesis by simp
qed

lemma body_shorter:
  assumes "reSearch rxBlankLine s = Some i"
  shows "length (reStripPrefix rxBlankLine (drop i s)) + 2 \<le> length s"
proof -
  from assms obtain v where "reFirst rxBlankLine s = Some (i, v)"
    by (cases "reFirst rxBlankLine s") (auto simp: reSearch_def)
  from reFirst_at[OF this] have m: "rxBlankLine (drop i s) = Some v" by simp
  obtain g rest where v: "v = (g, rest)" by (cases v)
  from m v have "rxBlankLine (drop i s) = Some (g, rest)" by simp
  from rxBlankLine_rest[OF this] have "length rest + 2 \<le> length (drop i s)" .
  then show ?thesis using m v by (simp add: reStripPrefix_def)
qed

lemma length_trim: "length (trim s) \<le> length s"
proof -
  have "length (trim s) \<le> length (dropWhile isWhiteSpace s)"
    unfolding trim_def trimEnd_def trimStart_def
    using length_dropWhile_le[of isWhiteSpace "rev (dropWhile isWhiteSpace s)"] by simp
  also have "\<dots> \<le> length s" by (rule length_dropWhile_le)
  finally show ?thesis .
qed

lemma nth_length_le_sum: "i < length xs \<Longrightarrow> length (xs ! i) \<le> sum_list (map length xs)"
  using member_le_sum_list[of "length (xs ! i)" "map length xs"] by simp

text \<open>
  \<open>parseMimePart\<close> and the loop over the parts of a multipart body, which skips the first
  and the last of them. \<open>result\<close> is mutated in the source and passed along here. A part
  that is parsed is shorter than the part that holds it, so the recursion ends.
\<close>

function parseMimePart :: "jsstring \<Rightarrow> ParsedEmail \<Rightarrow> error + ParsedEmail"
  and partsLoop :: "jsstring list \<Rightarrow> nat \<Rightarrow> ParsedEmail \<Rightarrow> error + ParsedEmail"
where
  "parseMimePart partText result =
     (case reSearch rxBlankLine partText of
        None \<Rightarrow> Inr result
      | Some headerEndIndex \<Rightarrow>
          (let headerText = take headerEndIndex partText;
               bodyText = reStripPrefix rxBlankLine (drop headerEndIndex partText);
               headers = parseHeaders headerText;
               ctype = getContentType headers;
               encoding = getEncoding headers
           in if startsWith ctype (js ''multipart/'') then
                (case extractBoundary (getOr headers (js ''content-type'') []) of
                   None \<Rightarrow> Inr result
                 | Some boundary \<Rightarrow>
                     if boundary \<noteq> [] then
                       partsLoop (reSplit (rxBoundary boundary) bodyText) 1 result
                     else Inr result)
              else parseLeaf headers ctype encoding bodyText result))"
| "partsLoop parts i result =
     (if i < length parts - 1 then
        (let part = trim (parts ! i)
         in if part \<noteq> [] \<and> part \<noteq> js ''--'' then
              (case parseMimePart part result of
                 Inl e \<Rightarrow> Inl e
               | Inr result' \<Rightarrow> partsLoop parts (i + 1) result')
            else partsLoop parts (i + 1) result)
      else Inr result)"
  by pat_completeness (auto simp only:)
termination
proof (relation "inv_image (less_than <*lex*> less_than)
    (\<lambda>x. case x of
       Inl (partText, result) \<Rightarrow> (length partText, 0)
     | Inr (parts, i, result) \<Rightarrow> (Suc (sum_list (map length parts)), length parts - i))",
    goal_cases)
  case 1
  show ?case by auto
next
  case (2 partText result headerEndIndex headerText bodyText headers ctype encoding boundary)
  then show ?case
    using body_shorter[of partText headerEndIndex]
      reSplit_size[of "rxBoundary boundary" bodyText]
    by simp
next
  case (3 parts i result part)
  then have "i < length parts" by simp
  with 3 show ?case
    using length_trim[of "parts ! i"] nth_length_le_sum[of i parts] by simp
next
  case 4
  then show ?case by simp
next
  case 5
  then show ?case by simp
qed

declare parseMimePart.simps [simp del]
declare partsLoop.simps [simp del]

section \<open>The entry point\<close>

text \<open>The loop of \<open>parseEml\<close> over the parts of the top-level body: it skips the first only.\<close>

function topLoop :: "jsstring list \<Rightarrow> nat \<Rightarrow> ParsedEmail \<Rightarrow> error + ParsedEmail" where
  "topLoop parts i result =
     (if i < length parts then
        (let part = trim (parts ! i)
         in if part \<noteq> [] \<and> part \<noteq> js ''--'' then
              (case parseMimePart part result of
                 Inl e \<Rightarrow> Inl e
               | Inr result' \<Rightarrow> topLoop parts (i + 1) result')
            else topLoop parts (i + 1) result)
      else Inr result)"
  by pat_completeness auto
termination
  by (relation "measure (\<lambda>(parts, i, result). length parts - i)") auto

declare topLoop.simps [simp del]

definition emptyEmail :: ParsedEmail where
  "emptyEmail =
     \<lparr>from = [], to = [], cc = [], bcc = [], subject = [], date = None, messageId = [],
      textBody = [], htmlBody = [], attachments = []\<rparr>"

definition parseEml :: "jsstring \<Rightarrow> error + ParsedEmail" where
  "parseEml eml =
     (case reSearch rxBlankLine eml of
        None \<Rightarrow> Inr emptyEmail
      | Some headerEndIndex \<Rightarrow>
          (let headerText = take headerEndIndex eml;
               bodyText = reStripPrefix rxBlankLine (drop headerEndIndex eml);
               headers = parseHeaders headerText;
               result1 = emptyEmail
                 \<lparr>from := parseEmailAddresses (getOr headers (js ''from'') []),
                  to := parseEmailAddresses (getOr headers (js ''to'') []),
                  cc := parseEmailAddresses (getOr headers (js ''cc'') []),
                  bcc := parseEmailAddresses (getOr headers (js ''bcc'') []),
                  subject := getOr headers (js ''subject'') [],
                  messageId := filter (\<lambda>c. c \<noteq> 60 \<and> c \<noteq> 62) (getOr headers (js ''message-id'') [])\<rparr>;
               result =
                 (case headers (js ''date'') of
                    None \<Rightarrow> result1
                  | Some dateStr \<Rightarrow>
                      if dateStr \<noteq> [] then
                        tryCatch (Inr (result1\<lparr>date := Some (NewDate dateStr)\<rparr>))
                          (\<lambda>e. result1\<lparr>date := None\<rparr>)
                      else result1);
               ctype = getContentType headers;
               encoding = getEncoding headers
           in if startsWith ctype (js ''multipart/'') then
                (case extractBoundary (getOr headers (js ''content-type'') []) of
                   None \<Rightarrow> Inr result
                 | Some boundary \<Rightarrow>
                     if boundary \<noteq> [] then
                       topLoop (reSplit (rxBoundary boundary) bodyText) 1 result
                     else Inr result)
              else if ctype = js ''text/plain'' then
                Inr (result\<lparr>textBody := decodeContent bodyText encoding\<rparr>)
              else if ctype = js ''text/html'' then
                Inr (result\<lparr>htmlBody := decodeContent bodyText encoding\<rparr>)
              else Inr result))"

section \<open>The address scan, as the specification words it\<close>

text \<open>
  The two flags of the scan after a prefix of the header value: a double quote flips the
  first unless a backslash stands before it; outside quotes, \<open><\<close> sets the second and
  \<open>>\<close> clears it. A position is outside when both flags are off after the characters
  before it.
\<close>

fun scanFlags :: "nat option \<Rightarrow> bool \<times> bool \<Rightarrow> jsstring \<Rightarrow> bool \<times> bool" where
  "scanFlags prev flags [] = flags"
| "scanFlags prev (inQuotes, inAngleBrackets) (c # cs) =
     scanFlags (Some c)
       (if c = 34 \<and> prev \<noteq> Some 92 then (\<not> inQuotes, inAngleBrackets)
        else if c = 60 \<and> \<not> inQuotes then (inQuotes, True)
        else if c = 62 \<and> \<not> inQuotes then (inQuotes, False)
        else (inQuotes, inAngleBrackets))
       cs"

definition outsideAt :: "jsstring \<Rightarrow> nat \<Rightarrow> bool" where
  "outsideAt s i = (scanFlags None (False, False) (take i s) = (False, False))"

text \<open>What the scan does with \<open>current\<close> at a separator and at the end.\<close>

definition pushCurrent :: "jsstring \<Rightarrow> EmailAddress list \<Rightarrow> EmailAddress list" where
  "pushCurrent current addresses =
     (if trim current \<noteq> [] then addresses @ [parseEmailAddress current] else addresses)"

text \<open>One step of the flags.\<close>

definition stepFlags :: "nat option \<Rightarrow> nat \<Rightarrow> bool \<times> bool \<Rightarrow> bool \<times> bool" where
  "stepFlags prev c flags =
     (case flags of (inQuotes, inAngleBrackets) \<Rightarrow>
        if c = 34 \<and> prev \<noteq> Some 92 then (\<not> inQuotes, inAngleBrackets)
        else if c = 60 \<and> \<not> inQuotes then (inQuotes, True)
        else if c = 62 \<and> \<not> inQuotes then (inQuotes, False)
        else (inQuotes, inAngleBrackets))"

section \<open>The walk over the segments, as the specification words it\<close>

text \<open>
  The segments of a split body that are parsed, in order: a segment is trimmed, and it is
  parsed as a part unless it is empty or the stub \<open>--\<close>.
\<close>

fun walkSegments :: "jsstring list \<Rightarrow> ParsedEmail \<Rightarrow> error + ParsedEmail" where
  "walkSegments [] result = Inr result"
| "walkSegments (seg # segs) result =
     (if trim seg \<noteq> [] \<and> trim seg \<noteq> js ''--'' then
        (case parseMimePart (trim seg) result of
           Inl e \<Rightarrow> Inl e
         | Inr result' \<Rightarrow> walkSegments segs result')
      else walkSegments segs result)"


text \<open>
  The segments of a multipart: a text that has a blank line, whose content type starts
  with \<open>multipart/\<close> and whose Content-Type header gives a boundary that is not empty,
  has its body split on the boundary. \<open>parseMimePart\<close> and \<open>parseEml\<close> both make this
  split, under these conditions, before they loop over the segments.
\<close>

definition multipartSegments :: "jsstring \<Rightarrow> jsstring list option" where
  "multipartSegments text =
     (case reSearch rxBlankLine text of
        None \<Rightarrow> None
      | Some i \<Rightarrow>
          if startsWith (getContentType (parseHeaders (take i text))) (js ''multipart/'') then
            (case extractBoundary (getOr (parseHeaders (take i text)) (js ''content-type'') []) of
               None \<Rightarrow> None
             | Some boundary \<Rightarrow>
                 if boundary \<noteq> [] then
                   Some (reSplit (rxBoundary boundary) (reStripPrefix rxBlankLine (drop i text)))
                 else None)
          else None)"

text \<open>
  A leaf is a part that has a blank line, the separator of its header and its body, and
  whose content type does not start with \<open>multipart/\<close>.
\<close>

definition isLeaf :: "jsstring \<Rightarrow> bool" where
  "isLeaf part =
     (case reSearch rxBlankLine part of
        None \<Rightarrow> False
      | Some i \<Rightarrow> \<not> startsWith (getContentType (parseHeaders (take i part))) (js ''multipart/''))"

text \<open>
  A segment, trimmed, is shorter than the text that was split, so the parts of a
  depth-first walk can be listed by recursion.
\<close>

lemma multipartSegments_cases:
  obtains (nosep) "reSearch rxBlankLine t = None" "multipartSegments t = None" "\<not> isLeaf t"
  | (leaf) i where "reSearch rxBlankLine t = Some i"
      "\<not> startsWith (getContentType (parseHeaders (take i t))) (js ''multipart/'')"
      "multipartSegments t = None" "isLeaf t"
  | (noboundary) i where "reSearch rxBlankLine t = Some i"
      "startsWith (getContentType (parseHeaders (take i t))) (js ''multipart/'')"
      "extractBoundary (getOr (parseHeaders (take i t)) (js ''content-type'') []) = None \<or>
       extractBoundary (getOr (parseHeaders (take i t)) (js ''content-type'') []) = Some []"
      "multipartSegments t = None" "\<not> isLeaf t"
  | (multi) i boundary where "reSearch rxBlankLine t = Some i"
      "startsWith (getContentType (parseHeaders (take i t))) (js ''multipart/'')"
      "extractBoundary (getOr (parseHeaders (take i t)) (js ''content-type'') []) = Some boundary"
      "boundary \<noteq> []"
      "multipartSegments t =
         Some (reSplit (rxBoundary boundary) (reStripPrefix rxBlankLine (drop i t)))"
      "\<not> isLeaf t"
proof (cases "reSearch rxBlankLine t")
  case None
  then have "multipartSegments t = None" "\<not> isLeaf t"
    by (simp_all add: multipartSegments_def isLeaf_def)
  with None show ?thesis by (rule nosep)
next
  case (Some i)
  show ?thesis
  proof (cases "startsWith (getContentType (parseHeaders (take i t))) (js ''multipart/'')")
    case False
    with Some have "multipartSegments t = None" "isLeaf t"
      by (simp_all add: multipartSegments_def isLeaf_def)
    with Some False show ?thesis by (rule leaf)
  next
    case True
    with Some have nl: "\<not> isLeaf t" by (simp add: isLeaf_def)
    show ?thesis
    proof (cases "extractBoundary (getOr (parseHeaders (take i t)) (js ''content-type'') [])")
      case None
      with Some True have "multipartSegments t = None" by (simp add: multipartSegments_def)
      with Some True None show ?thesis using nl by (intro noboundary[of i]) simp_all
    next
      case b: (Some boundary)
      show ?thesis
      proof (cases "boundary = []")
        case e: True
        with Some True b have "multipartSegments t = None" by (simp add: multipartSegments_def)
        with Some True b e show ?thesis using nl by (intro noboundary[of i]) simp_all
      next
        case False
        with Some True b have "multipartSegments t =
            Some (reSplit (rxBoundary boundary) (reStripPrefix rxBlankLine (drop i t)))"
          by (simp add: multipartSegments_def)
        with Some True b False show ?thesis using nl by (intro multi[of i boundary]) simp_all
      qed
    qed
  qed
qed

lemma multipartSegments_SomeD:
  assumes "multipartSegments t = Some parts"
  obtains i boundary where "reSearch rxBlankLine t = Some i"
      "startsWith (getContentType (parseHeaders (take i t))) (js ''multipart/'')"
      "extractBoundary (getOr (parseHeaders (take i t)) (js ''content-type'') []) = Some boundary"
      "boundary \<noteq> []"
      "parts = reSplit (rxBoundary boundary) (reStripPrefix rxBlankLine (drop i t))"
proof (cases t rule: multipartSegments_cases)
  case nosep
  with assms show ?thesis by simp
next
  case (leaf i)
  with assms show ?thesis by simp
next
  case (noboundary i)
  with assms show ?thesis by simp
next
  case (multi i boundary)
  from multi(5) assms have "parts = reSplit (rxBoundary boundary) (reStripPrefix rxBlankLine (drop i t))"
    by simp
  with multi(1-4) show ?thesis by (rule that)
qed

lemma segment_shorter:
  assumes "multipartSegments t = Some parts" and "seg \<in> set parts"
  shows "length (trim seg) < length t"
proof -
  from assms(1) obtain i boundary where i: "reSearch rxBlankLine t = Some i"
    and parts: "parts = reSplit (rxBoundary boundary) (reStripPrefix rxBlankLine (drop i t))"
    by (rule multipartSegments_SomeD)
  have "length seg \<le> sum_list (map length parts)"
    using member_le_sum_list[of "length seg" "map length parts"] assms(2) by simp
  also have "\<dots> \<le> length (reStripPrefix rxBlankLine (drop i t))"
    unfolding parts by (rule reSplit_size)
  also have "\<dots> < length t"
    using body_shorter[OF i] by simp
  finally show ?thesis using length_trim[of seg] by simp
qed

lemma in_set_butlast_tl: "x \<in> set (butlast (tl xs)) \<Longrightarrow> x \<in> set xs"
  by (cases xs) (auto dest: in_set_butlastD)

text \<open>
  The leaves of the depth-first walk of a part, in the order of the walk: at every split
  the segments between the first and the last are taken in order; a segment is trimmed,
  and it is walked unless it is empty or the stub \<open>--\<close>. A part that is neither a split
  multipart nor a leaf has no leaves.
\<close>

function leafParts :: "jsstring \<Rightarrow> jsstring list" where
  "leafParts partText =
     (case multipartSegments partText of
        Some parts \<Rightarrow>
          concat (map (\<lambda>seg. if trim seg \<noteq> [] \<and> trim seg \<noteq> js ''--''
                            then leafParts (trim seg) else [])
            (butlast (tl parts)))
      | None \<Rightarrow> if isLeaf partText then [partText] else [])"
  by pat_completeness (auto simp only:)
termination
proof (relation "measure length", goal_cases)
  case 1
  show ?case by simp
next
  case (2 partText parts seg)
  from 2(2) have "seg \<in> set parts" by (rule in_set_butlast_tl)
  with 2(1) have "length (trim seg) < length partText" by (rule segment_shorter)
  then show ?case by simp
qed

declare leafParts.simps [simp del]

text \<open>The leaves of one segment of a split.\<close>

definition segmentLeaves :: "jsstring \<Rightarrow> jsstring list" where
  "segmentLeaves seg =
     (if trim seg \<noteq> [] \<and> trim seg \<noteq> js ''--'' then leafParts (trim seg) else [])"

text \<open>\<open>parseMimePart\<close> on a list of parts, one after the other.\<close>

fun walkLeaves :: "jsstring list \<Rightarrow> ParsedEmail \<Rightarrow> error + ParsedEmail" where
  "walkLeaves [] result = Inr result"
| "walkLeaves (leaf # leaves) result =
     (case parseMimePart leaf result of
        Inl e \<Rightarrow> Inl e
      | Inr result' \<Rightarrow> walkLeaves leaves result')"

text \<open>
  The content type of a leaf and its decoded content, as \<open>parseMimePart\<close> computes them
  for a \<open>text/plain\<close> or \<open>text/html\<close> part.
\<close>

definition leafType :: "jsstring \<Rightarrow> jsstring" where
  "leafType part =
     (case reSearch rxBlankLine part of
        None \<Rightarrow> []
      | Some i \<Rightarrow> getContentType (parseHeaders (take i part)))"

definition leafText :: "jsstring \<Rightarrow> jsstring" where
  "leafText part =
     (case reSearch rxBlankLine part of
        None \<Rightarrow> []
      | Some i \<Rightarrow>
          decodeContent (reStripPrefix rxBlankLine (drop i part))
            (getEncoding (parseHeaders (take i part))))"

text \<open>
  The decoded content of the first leaf of the given content type whose decoded content is
  not empty, and the empty string when there is none.
\<close>

definition firstBody :: "jsstring \<Rightarrow> jsstring list \<Rightarrow> jsstring" where
  "firstBody ty leaves =
     (case find (\<lambda>l. leafType l = ty \<and> leafText l \<noteq> []) leaves of
        None \<Rightarrow> []
      | Some l \<Rightarrow> leafText l)"


text \<open>
  A split ends cleanly when nothing but white space or the stub \<open>--\<close> follows the last
  boundary: the last segment, trimmed, is empty or \<open>--\<close>, or the split has one segment
  only. A message that ends with its closing boundary is split so.
\<close>

definition endsCleanly :: "jsstring list \<Rightarrow> bool" where
  "endsCleanly parts = (tl parts = [] \<or> trim (last parts) = [] \<or> trim (last parts) = js ''--'')"

section \<open>Concrete documents\<close>

text \<open>
  A message whose only part is a PDF with the file name \<open>100%.pdf\<close> in its
  Content-Disposition: the \<open>%\<close> is not followed by two hexadecimal digits.
\<close>

definition uriErrorMail :: jsstring where
  "uriErrorMail =
     js ''Content-Type: multipart/mixed; boundary=B'' @ [LF, LF] @
     js ''--B'' @ [LF] @
     js ''Content-Type: application/pdf'' @ [LF] @
     js ''Content-Disposition: attachment; filename='' @ [DQUOTE] @ js ''100%.pdf'' @ [DQUOTE] @
     [LF, LF] @
     js ''x'' @ [LF] @
     js ''--B--''"

text \<open>A message with a Date header that is no date.\<close>

definition badDateMail :: jsstring where
  "badDateMail = js ''Date: not a date'' @ [LF, LF] @ js ''x''"





definition mixedHeader :: jsstring where
  "mixedHeader = js ''Content-Type: multipart/mixed; boundary=B''"








text \<open>
  Parts with a body text: two \<open>text/plain\<close> parts (the default content type) with the
  contents \<open>one\<close> and \<open>two\<close>, a \<open>text/html\<close> part with the content \<open>late\<close>, and a
  \<open>text/plain\<close> part in base64 with the body \<open>=\<close>, which decodes to no bytes.
\<close>

definition onePart :: jsstring where
  "onePart = js ''A: b'' @ [LF, LF] @ js ''one''"

definition twoPart :: jsstring where
  "twoPart = js ''A: b'' @ [LF, LF] @ js ''two''"

definition latePart :: jsstring where
  "latePart = js ''Content-Type: text/html'' @ [LF, LF] @ js ''late''"

definition emptyPart :: jsstring where
  "emptyPart = js ''Content-Transfer-Encoding: base64'' @ [LF, LF] @ js ''=''"

text \<open>
  A multipart with one part and, after the closing boundary, an epilogue that has the form
  of a \<open>text/html\<close> part. It is a message, and it can be a part of another message.
\<close>

definition epilogueBody :: jsstring where
  "epilogueBody =
     js ''--B'' @ [LF] @ onePart @ [LF] @ js ''--B--'' @ [LF] @ latePart"

definition epilogueMail :: jsstring where
  "epilogueMail = mixedHeader @ [LF, LF] @ epilogueBody"

text \<open>
  A \<open>multipart/alternative\<close> with a \<open>text/plain\<close> and a \<open>text/html\<close> part, and a message
  that holds it, followed by a second \<open>text/plain\<close> part.
\<close>

definition alternativeHeader :: jsstring where
  "alternativeHeader = js ''Content-Type: multipart/alternative; boundary=N''"

definition alternativeBody :: jsstring where
  "alternativeBody =
     js ''--N'' @ [LF] @ onePart @ [LF] @ js ''--N'' @ [LF] @ latePart @ [LF] @ js ''--N--''"

definition alternativePart :: jsstring where
  "alternativePart = alternativeHeader @ [LF, LF] @ alternativeBody"

definition twoLevelBody :: jsstring where
  "twoLevelBody =
     js ''--B'' @ [LF] @ alternativePart @ [LF] @ js ''--B'' @ [LF] @ twoPart @ [LF] @ js ''--B--''"

definition twoLevelMail :: jsstring where
  "twoLevelMail = mixedHeader @ [LF, LF] @ twoLevelBody"

text \<open>A message with two \<open>text/plain\<close> parts, the first of which decodes to the empty string.\<close>

definition emptyFirstBody :: jsstring where
  "emptyFirstBody =
     js ''--B'' @ [LF] @ emptyPart @ [LF] @ js ''--B'' @ [LF] @ twoPart @ [LF] @ js ''--B--''"

definition emptyFirstMail :: jsstring where
  "emptyFirstMail = mixedHeader @ [LF, LF] @ emptyFirstBody"

text \<open>
  A message whose first part has no header: the part starts with the blank line, which
  trimming removes. The second part is \<open>text/plain\<close>.
\<close>

definition headerlessFirstBody :: jsstring where
  "headerlessFirstBody =
     js ''--B'' @ [LF, LF] @ js ''hello'' @ [LF] @ js ''--B'' @ [LF] @ twoPart @ [LF] @ js ''--B--''"

definition headerlessFirstMail :: jsstring where
  "headerlessFirstMail = mixedHeader @ [LF, LF] @ headerlessFirstBody"

text \<open>
  A message with two \<open>text/plain\<close> parts that decode to the empty string and, after the
  closing boundary, an epilogue that has the form of a \<open>text/plain\<close> part.
\<close>

definition emptyPartsEpilogueBody :: jsstring where
  "emptyPartsEpilogueBody =
     js ''--B'' @ [LF] @ emptyPart @ [LF] @ js ''--B'' @ [LF] @ emptyPart @ [LF] @
     js ''--B--'' @ [LF] @ twoPart"

definition emptyPartsEpilogueMail :: jsstring where
  "emptyPartsEpilogueMail = mixedHeader @ [LF, LF] @ emptyPartsEpilogueBody"

section \<open>Evaluation on literals\<close>

text \<open>The equations that evaluate the definitions on a concrete input.\<close>

lemma js_Nil: "js [] = []"
  by (simp add: js_def)

lemma js_Cons: "js (c # cs) = of_char c # js cs"
  by (simp add: js_def)

lemmas js_eval = js_Nil js_Cons CR_def LF_def DQUOTE_def SQUOTE_def

lemmas rx_eval = rxChar_def rxOpt_def rxPlus_def rxPlusG_def rxCharG_def rxEnd_def rxDone_def
  reSearch_def reMatch_def reSplit_def reStripPrefix_def

lemmas str_eval = isWhiteSpace_def trimStart_def trimEnd_def trim_def
  lowerUnit_def toLowerCase_def upperUnit_def toUpperCase_def getOr_def

lemmas hdr_eval = parseHeaders_def headerLine_def decodeMimeWord_def rxMimeWord_def rxFold_def
  rxNewline_def rxBlankLine_def getContentType_def getEncoding_def extractBoundary_def
  rxBoundaryParam_def rxBoundary_def

lemmas leaf_eval = parseLeaf_def getFilename_def rxFilenameParam_def rxNameParam_def truthy_def
  orElse_def decodeContent_def decodeContentToBuffer_def

lemmas walk_eval = parseEml_def parseMimePart.simps partsLoop.simps topLoop.simps emptyEmail_def
  tryCatch_def

lemmas uri_eval = hexOctet_def isHexDigit_def hexValue_def parseHex2_def leadingOnes_def
  utf8Sequence_def isCont_def utf16Encode_def

section \<open>The URL sanitizer: properties\<close>

text \<open>
  C5. For every URL, \<open>sanitizeUrl\<close> returns the URL when its trimmed, lower-cased form
  starts with \<open>http://\<close>, \<open>https://\<close>, \<open>mailto:\<close> or \<open>cid:\<close>, and the empty string for
  every other URL. \<open>javascript:alert(1)\<close> and a \<open>data:text/html\<close> URL are rejected;
  \<open>https://example.com\<close>, \<open>mailto:a@b.com\<close> and \<open>cid:img1\<close> are accepted.
\<close>

theorem sanitizeUrl_allow_list:
  "sanitizeUrl u =
     (if startsWith (toLowerCase (trim u)) (js ''http://'') \<or>
         startsWith (toLowerCase (trim u)) (js ''https://'') \<or>
         startsWith (toLowerCase (trim u)) (js ''mailto:'') \<or>
         startsWith (toLowerCase (trim u)) (js ''cid:'')
      then u else []) \<and>
   sanitizeUrl (js ''javascript:alert(1)'') = [] \<and>
   sanitizeUrl (js ''data:text/html,<b>x</b>'') = [] \<and>
   sanitizeUrl (js ''https://example.com'') = js ''https://example.com'' \<and>
   sanitizeUrl (js ''mailto:a@b.com'') = js ''mailto:a@b.com'' \<and>
   sanitizeUrl (js ''cid:img1'') = js ''cid:img1''"
  by (simp add: sanitizeUrl_def isSafeUrl_def str_eval js_eval)

text \<open>
  C9. For every URL \<open>u\<close>, \<open>sanitizeUrl u\<close> is \<open>u\<close> itself or the empty string: a URL that
  passes the allow-list comes back as it was given, neither trimmed nor lower-cased.
\<close>

theorem sanitizeUrl_unchanged_or_empty:
  "(sanitizeUrl u = u \<or> sanitizeUrl u = []) \<and> (isSafeUrl u \<longrightarrow> sanitizeUrl u = u)"
  by (simp add: sanitizeUrl_def)

theorem sanitizeUrl_unchanged_or_empty_witness:
  "isSafeUrl (js ''  HTTPS://Example.com/A '') \<and>
   sanitizeUrl (js ''  HTTPS://Example.com/A '') = js ''  HTTPS://Example.com/A ''"
proof -
  have safe: "isSafeUrl (js ''  HTTPS://Example.com/A '')"
    by (simp add: isSafeUrl_def str_eval js_eval)
  with sanitizeUrl_unchanged_or_empty[of "js ''  HTTPS://Example.com/A ''"]
  show ?thesis by blast
qed

section \<open>Quoted-printable: the text decoder and the binary decoder\<close>

text \<open>
  C7. For every input, the text-mode quoted-printable decoder gives the UTF-8 reading of
  the bytes that the binary-mode decoder gives: the two share the removal of soft line
  breaks and the expansion of \<open>=XX\<close>, and differ in the last step only. On
  \<open>=E2=82=AC1=\<close>, a line break and \<open>0\<close>, the bytes are those of the euro sign, \<open>1\<close> and
  \<open>0\<close>, and the text is the euro sign (U+20AC), \<open>1\<close> and \<open>0\<close>.
\<close>

theorem decodeQuotedPrintable_utf8_of_buffer:
  "decodeQuotedPrintable s = bufferToString (decodeQuotedPrintableToBuffer s) \<and>
   decodeQuotedPrintableToBuffer (js ''=E2=82=AC1='' @ [CR, LF] @ js ''0'') = [226, 130, 172, 49, 48] \<and>
   decodeQuotedPrintable (js ''=E2=82=AC1='' @ [CR, LF] @ js ''0'') = [8364, 49, 48]"
  by (simp add: decodeQuotedPrintable_def decodeQuotedPrintableToBuffer_def tryCatch_def Let_def
      js_eval rx_eval rxSoftBreak_def bufferFromArray_def bufferToString_def
      utf8CodePoints.simps utf16Encode_def isHexDigit_def hexValue_def parseHex2_def)

section \<open>Address lists: properties\<close>

lemma scanFlags_step:
  "scanFlags p (q, g) (c # cs) = scanFlags (Some c) (stepFlags p c (q, g)) cs"
  by (simp add: stepFlags_def)

lemma addressesLoop_step:
  "addressesLoop p (c # cs) cur q g acc =
     addressesLoop (Some c) cs
       (if c = 44 \<and> \<not> q \<and> \<not> g then [] else cur @ [c])
       (fst (stepFlags p c (q, g))) (snd (stepFlags p c (q, g)))
       (if c = 44 \<and> \<not> q \<and> \<not> g then pushCurrent cur acc else acc)"
  by (simp add: stepFlags_def pushCurrent_def)

lemma pushCurrent_acc: "pushCurrent cur acc = acc @ pushCurrent cur []"
  by (simp add: pushCurrent_def)

lemma addressesLoop_acc:
  "addressesLoop p s cur q g acc = acc @ addressesLoop p s cur q g []"
proof (induction s arbitrary: p cur q g acc)
  case Nil
  show ?case by simp
next
  case (Cons c cs)
  define cur' where "cur' = (if c = 44 \<and> \<not> q \<and> \<not> g then [] else cur @ [c])"
  define q' where "q' = fst (stepFlags p c (q, g))"
  define g' where "g' = snd (stepFlags p c (q, g))"
  define acc0 where "acc0 = (if c = 44 \<and> \<not> q \<and> \<not> g then pushCurrent cur [] else [])"
  have acc': "(if c = 44 \<and> \<not> q \<and> \<not> g then pushCurrent cur acc else acc) = acc @ acc0"
    using pushCurrent_acc[of cur acc] by (simp add: acc0_def)
  have "addressesLoop p (c # cs) cur q g acc = addressesLoop (Some c) cs cur' q' g' (acc @ acc0)"
    unfolding addressesLoop_step acc' cur'_def q'_def g'_def ..
  also have "\<dots> = (acc @ acc0) @ addressesLoop (Some c) cs cur' q' g' []"
    by (rule Cons.IH)
  also have "\<dots> = acc @ addressesLoop (Some c) cs cur' q' g' acc0"
    using Cons.IH[of "Some c" cur' q' g' acc0] by simp
  also have "addressesLoop (Some c) cs cur' q' g' acc0 = addressesLoop p (c # cs) cur q g []"
    unfolding addressesLoop_step cur'_def q'_def g'_def acc0_def by simp
  finally show ?case .
qed

lemma addressesLoop_at_comma:
  "scanFlags p (q, g) a = (False, False) \<Longrightarrow>
   addressesLoop p (a @ 44 # b) cur q g acc =
     addressesLoop (Some 44) b [] False False (addressesLoop p a cur q g acc)"
proof (induction a arbitrary: p cur q g acc)
  case Nil
  then show ?case by (simp add: pushCurrent_def)
next
  case (Cons c cs)
  from Cons.prems have
    "scanFlags (Some c) (fst (stepFlags p c (q, g)), snd (stepFlags p c (q, g))) cs = (False, False)"
    by (simp only: scanFlags_step prod.collapse)
  from Cons.IH[OF this] show ?case
    unfolding append_Cons addressesLoop_step .
qed

lemma addressesLoop_prev_comma:
  "addressesLoop (Some 44) b cur q g acc = addressesLoop None b cur q g acc"
  by (cases b) simp_all

lemma addressesLoop_no_comma:
  "(\<forall>i < length s. s ! i = 44 \<longrightarrow> scanFlags p (q, g) (take i s) \<noteq> (False, False)) \<Longrightarrow>
   addressesLoop p s cur q g acc = pushCurrent (cur @ s) acc"
proof (induction s arbitrary: p cur q g)
  case Nil
  show ?case by (simp add: pushCurrent_def)
next
  case (Cons c cs)
  have c0: "\<not> (c = 44 \<and> \<not> q \<and> \<not> g)"
    using Cons.prems[rule_format, of 0] by auto
  have rest: "\<forall>i < length cs. cs ! i = 44 \<longrightarrow>
      scanFlags (Some c) (fst (stepFlags p c (q, g)), snd (stepFlags p c (q, g))) (take i cs)
        \<noteq> (False, False)"
  proof (intro allI impI)
    fix i assume "i < length cs" "cs ! i = 44"
    then show "scanFlags (Some c) (fst (stepFlags p c (q, g)), snd (stepFlags p c (q, g)))
        (take i cs) \<noteq> (False, False)"
      using Cons.prems[rule_format, of "Suc i"]
      by (simp only: scanFlags_step prod.collapse take_Suc_Cons length_Cons nth_Cons_Suc) simp
  qed
  have cur': "(if c = 44 \<and> \<not> q \<and> \<not> g then [] else cur @ [c]) = cur @ [c]"
    using c0 by auto
  have acc': "(if c = 44 \<and> \<not> q \<and> \<not> g then pushCurrent cur acc else acc) = acc"
    using c0 by auto
  have "addressesLoop p (c # cs) cur q g acc =
      addressesLoop (Some c) cs (cur @ [c])
        (fst (stepFlags p c (q, g))) (snd (stepFlags p c (q, g))) acc"
    unfolding addressesLoop_step cur' acc' ..
  also have "\<dots> = pushCurrent ((cur @ [c]) @ cs) acc"
    by (rule Cons.IH[OF rest])
  finally show ?case by simp
qed

text \<open>
  C8. \<open>parseEmailAddresses\<close> takes a comma for a separator only when the scan is outside
  double quotes and outside angle brackets: when no comma of the input is outside, the
  input is one address (or none when it is blank); a comma that is outside splits the
  input into two lists that are parsed on their own. The input
  \<open>"Doe, John" <john@x.com>, jane@y.com\<close> gives two addresses, the first with the name
  \<open>Doe, John\<close> and the address \<open>john@x.com\<close>, the second the bare address \<open>jane@y.com\<close>.
\<close>

theorem comma_separates_outside_only:
  "((\<forall>i < length s. s ! i = 44 \<longrightarrow> \<not> outsideAt s i) \<longrightarrow>
      parseEmailAddresses s = (if trim s = [] then [] else [parseEmailAddress s])) \<and>
   (outsideAt (a @ 44 # b) (length a) \<longrightarrow>
      parseEmailAddresses (a @ 44 # b) = parseEmailAddresses a @ parseEmailAddresses b) \<and>
   parseEmailAddresses
     (js [] @ [34] @ js ''Doe, John'' @ [34] @ js '' <john@x.com>, jane@y.com'') =
     [\<lparr>name = js ''Doe, John'', address = js ''john@x.com''\<rparr>,
      \<lparr>name = [], address = js ''jane@y.com''\<rparr>]"
proof (intro conjI impI)
  assume "\<forall>i < length s. s ! i = 44 \<longrightarrow> \<not> outsideAt s i"
  then have "\<forall>i < length s. s ! i = 44 \<longrightarrow>
      scanFlags None (False, False) (take i s) \<noteq> (False, False)"
    by (simp add: outsideAt_def)
  from addressesLoop_no_comma[OF this, of "[]" "[]"]
  show "parseEmailAddresses s = (if trim s = [] then [] else [parseEmailAddress s])"
    by (simp add: parseEmailAddresses_def pushCurrent_def trim_def trimEnd_def trimStart_def)
next
  assume "outsideAt (a @ 44 # b) (length a)"
  then have fl: "scanFlags None (False, False) a = (False, False)"
    by (simp add: outsideAt_def)
  have "parseEmailAddresses (a @ 44 # b) = addressesLoop None (a @ 44 # b) [] False False []"
    by (simp add: parseEmailAddresses_def)
  also have "\<dots> = addressesLoop (Some 44) b [] False False (addressesLoop None a [] False False [])"
    by (rule addressesLoop_at_comma[OF fl])
  also have "\<dots> = addressesLoop None a [] False False [] @ addressesLoop None b [] False False []"
    using addressesLoop_acc[of "Some 44" b "[]" False False "addressesLoop None a [] False False []"]
    by (simp add: addressesLoop_prev_comma)
  also have "\<dots> = parseEmailAddresses a @ parseEmailAddresses b"
    by (simp add: parseEmailAddresses_def trim_def trimEnd_def trimStart_def)
  finally show "parseEmailAddresses (a @ 44 # b) = parseEmailAddresses a @ parseEmailAddresses b" .
next
  show "parseEmailAddresses
     (js [] @ [34] @ js ''Doe, John'' @ [34] @ js '' <john@x.com>, jane@y.com'') =
     [\<lparr>name = js ''Doe, John'', address = js ''john@x.com''\<rparr>,
      \<lparr>name = [], address = js ''jane@y.com''\<rparr>]"
    by (simp add: parseEmailAddresses_def parseEmailAddress_def rxAddress_def stripQuotes_def
        js_eval rx_eval str_eval Let_def)
qed

theorem comma_separates_outside_only_witness:
  "outsideAt (js ''a@x.com'' @ 44 # js ''<b@y.com>'') (length (js ''a@x.com'')) \<and>
   parseEmailAddresses (js ''a@x.com'' @ 44 # js ''<b@y.com>'') =
     parseEmailAddresses (js ''a@x.com'') @ parseEmailAddresses (js ''<b@y.com>'') \<and>
   \<not> outsideAt (js ''<a,b@x.com>'') 2 \<and>
   parseEmailAddresses (js ''<a,b@x.com>'') = [parseEmailAddress (js ''<a,b@x.com>'')]"
proof -
  have o: "outsideAt (js ''a@x.com'' @ 44 # js ''<b@y.com>'') (length (js ''a@x.com''))"
    by (simp add: outsideAt_def js_eval)
  have n: "\<forall>i < length (js ''<a,b@x.com>'').
      js ''<a,b@x.com>'' ! i = 44 \<longrightarrow> \<not> outsideAt (js ''<a,b@x.com>'') i"
    by (simp add: outsideAt_def js_eval less_Suc_eq nth_Cons')
  have t: "trim (js ''<a,b@x.com>'') \<noteq> []"
    by (simp add: js_eval str_eval)
  have n2: "\<not> outsideAt (js ''<a,b@x.com>'') 2"
    by (simp add: outsideAt_def js_eval)
  from comma_separates_outside_only[of "js ''<a,b@x.com>''" "js ''a@x.com''" "js ''<b@y.com>''"] o n t n2
  show ?thesis by simp
qed

section \<open>The walk over the parts: lemmas\<close>

lemma partsLoop_walk:
  "partsLoop parts i r = walkSegments (drop i (butlast parts)) r"
proof (induction "length parts - i" arbitrary: i r)
  case 0
  then have "\<not> i < length parts - 1" and "drop i (butlast parts) = []" by simp_all
  then show ?case by (simp add: partsLoop.simps[of parts i r])
next
  case (Suc n)
  show ?case
  proof (cases "i < length parts - 1")
    case False
    then have "drop i (butlast parts) = []" by simp
    with False show ?thesis by (simp add: partsLoop.simps[of parts i r])
  next
    case True
    then have lt: "i < length (butlast parts)" by simp
    have d: "drop i (butlast parts) = parts ! i # drop (Suc i) (butlast parts)"
      using Cons_nth_drop_Suc[OF lt] nth_butlast[OF lt] by simp
    from Suc.hyps(2) have n: "n = length parts - (i + 1)" by simp
    have IH: "\<And>r'. partsLoop parts (i + 1) r' = walkSegments (drop (Suc i) (butlast parts)) r'"
      using Suc.hyps(1)[OF n] by simp
    show ?thesis
      unfolding d walkSegments.simps partsLoop.simps[of parts i r]
      using True IH[unfolded Suc_eq_plus1[symmetric]] by (simp add: IH Let_def split: sum.split)
  qed
qed

lemma topLoop_walk:
  "topLoop parts i r = walkSegments (drop i parts) r"
proof (induction "length parts - i" arbitrary: i r)
  case 0
  then have "\<not> i < length parts" and "drop i parts = []" by simp_all
  then show ?case by (simp add: topLoop.simps[of parts i r])
next
  case (Suc n)
  then have lt: "i < length parts" by simp
  have d: "drop i parts = parts ! i # drop (Suc i) parts"
    using Cons_nth_drop_Suc[OF lt] by simp
  from Suc.hyps(2) have n: "n = length parts - (i + 1)" by simp
  have IH: "\<And>r'. topLoop parts (i + 1) r' = walkSegments (drop (Suc i) parts) r'"
    using Suc.hyps(1)[OF n] by simp
  show ?case
    unfolding d walkSegments.simps topLoop.simps[of parts i r]
    using lt IH[unfolded Suc_eq_plus1[symmetric]] by (simp add: IH Let_def split: sum.split)
qed




lemma parseLeaf_text_plain:
  "parseLeaf h (js ''text/plain'') enc body r =
     Inr (if textBody r = [] then r\<lparr>textBody := decodeContent body enc\<rparr> else r)"
  by (simp add: parseLeaf_def Let_def)

lemma text_html_neq_plain: "js ''text/html'' \<noteq> js ''text/plain''"
  by (simp add: js_eval)

lemma parseLeaf_text_html:
  "parseLeaf h (js ''text/html'') enc body r =
     Inr (if htmlBody r = [] then r\<lparr>htmlBody := decodeContent body enc\<rparr> else r)"
  by (simp add: parseLeaf_def Let_def text_html_neq_plain)

lemma text_not_multipart:
  "\<not> startsWith (js ''text/plain'') (js ''multipart/'')"
  "\<not> startsWith (js ''text/html'') (js ''multipart/'')"
  by (simp_all add: js_eval)

lemma parseMimePart_leaf:
  assumes "reSearch rxBlankLine partText = Some i"
    and "\<not> startsWith (getContentType (parseHeaders (take i partText))) (js ''multipart/'')"
  shows "parseMimePart partText r =
     parseLeaf (parseHeaders (take i partText)) (getContentType (parseHeaders (take i partText)))
       (getEncoding (parseHeaders (take i partText)))
       (reStripPrefix rxBlankLine (drop i partText)) r"
  using assms by (simp add: parseMimePart.simps Let_def)

lemma parseMimePart_multipart:
  assumes "reSearch rxBlankLine partText = Some i"
    and "startsWith (getContentType (parseHeaders (take i partText))) (js ''multipart/'')"
    and "extractBoundary (getOr (parseHeaders (take i partText)) (js ''content-type'') []) = Some boundary"
    and "boundary \<noteq> []"
  shows "parseMimePart partText r =
     partsLoop (reSplit (rxBoundary boundary) (reStripPrefix rxBlankLine (drop i partText))) 1 r"
  using assms by (simp add: parseMimePart.simps Let_def)










lemma parseMimePart_segments:
  assumes "multipartSegments p = Some parts"
  shows "parseMimePart p r = walkSegments (butlast (tl parts)) r"
proof -
  from assms obtain i boundary where f: "reSearch rxBlankLine p = Some i"
      "startsWith (getContentType (parseHeaders (take i p))) (js ''multipart/'')"
      "extractBoundary (getOr (parseHeaders (take i p)) (js ''content-type'') []) = Some boundary"
      "boundary \<noteq> []"
      "parts = reSplit (rxBoundary boundary) (reStripPrefix rxBlankLine (drop i p))"
    by (rule multipartSegments_SomeD)
  have "parseMimePart p r = partsLoop parts 1 r"
    unfolding f(5) using f(1-4) by (rule parseMimePart_multipart)
  then show ?thesis by (simp add: partsLoop_walk drop_Suc butlast_tl)
qed

lemma parseMimePart_neither:
  assumes "multipartSegments p = None" and "\<not> isLeaf p"
  shows "parseMimePart p r = Inr r"
proof (cases p rule: multipartSegments_cases)
  case nosep
  then show ?thesis by (simp add: parseMimePart.simps[of p])
next
  case (leaf i)
  with assms show ?thesis by simp
next
  case (noboundary i)
  from noboundary(3) show ?thesis
  proof
    assume "extractBoundary (getOr (parseHeaders (take i p)) (js ''content-type'') []) = None"
    with noboundary(1,2) show ?thesis by (simp add: parseMimePart.simps[of p] Let_def)
  next
    assume "extractBoundary (getOr (parseHeaders (take i p)) (js ''content-type'') []) = Some []"
    with noboundary(1,2) show ?thesis by (simp add: parseMimePart.simps[of p] Let_def)
  qed
next
  case (multi i boundary)
  with assms show ?thesis by simp
qed

lemma isLeaf_no_segments: "isLeaf p \<Longrightarrow> multipartSegments p = None"
  by (cases p rule: multipartSegments_cases) simp_all

lemma leafParts_segments:
  assumes "multipartSegments p = Some parts"
  shows "leafParts p = concat (map segmentLeaves (butlast (tl parts)))"
proof -
  have "segmentLeaves = (\<lambda>seg. if trim seg \<noteq> [] \<and> trim seg \<noteq> js ''--''
                                     then leafParts (trim seg) else [])"
    by (rule ext) (simp only: segmentLeaves_def)
  then show ?thesis
    using assms by (simp add: leafParts.simps[of p])
qed

lemma leafParts_leaf: "isLeaf p \<Longrightarrow> leafParts p = [p]"
  by (simp add: leafParts.simps[of p] isLeaf_no_segments)

lemma leafParts_neither: "multipartSegments p = None \<Longrightarrow> \<not> isLeaf p \<Longrightarrow> leafParts p = []"
  by (simp add: leafParts.simps[of p])

lemma walkLeaves_append:
  "walkLeaves (xs @ ys) r =
     (case walkLeaves xs r of Inl e \<Rightarrow> Inl e | Inr r' \<Rightarrow> walkLeaves ys r')"
  by (induction xs arbitrary: r) (simp_all split: sum.splits)

lemma walkSegments_append:
  "walkSegments (xs @ ys) r =
     (case walkSegments xs r of Inl e \<Rightarrow> Inl e | Inr r' \<Rightarrow> walkSegments ys r')"
  by (induction xs arbitrary: r) (simp_all split: sum.splits)

lemma walkSegments_leaves_if:
  assumes "\<And>seg r. seg \<in> set segs \<Longrightarrow>
      parseMimePart (trim seg) r = walkLeaves (leafParts (trim seg)) r"
  shows "walkSegments segs r = walkLeaves (concat (map segmentLeaves segs)) r"
  using assms
proof (induction segs arbitrary: r)
  case Nil
  show ?case by simp
next
  case (Cons seg segs)
  have IH: "\<And>r. walkSegments segs r = walkLeaves (concat (map segmentLeaves segs)) r"
    using Cons.IH Cons.prems by simp
  have here: "\<And>r. parseMimePart (trim seg) r = walkLeaves (leafParts (trim seg)) r"
    using Cons.prems by simp
  show ?case
  proof (cases "trim seg \<noteq> [] \<and> trim seg \<noteq> js ''--''")
    case False
    then have "segmentLeaves seg = []" by (auto simp: segmentLeaves_def)
    with False IH show ?thesis by auto
  next
    case True
    then have s: "segmentLeaves seg = leafParts (trim seg)" by (simp add: segmentLeaves_def)
    have "walkSegments (seg # segs) r =
        (case parseMimePart (trim seg) r of Inl e \<Rightarrow> Inl e | Inr r' \<Rightarrow> walkSegments segs r')"
      using True by simp
    also have "\<dots> = (case walkLeaves (leafParts (trim seg)) r of
        Inl e \<Rightarrow> Inl e | Inr r' \<Rightarrow> walkLeaves (concat (map segmentLeaves segs)) r')"
      by (simp add: here IH cong: sum.case_cong)
    also have "\<dots> = walkLeaves (concat (map segmentLeaves (seg # segs))) r"
      by (simp add: s walkLeaves_append)
    finally show ?thesis .
  qed
qed

lemma parseMimePart_leaves: "parseMimePart p r = walkLeaves (leafParts p) r"
proof (induction "length p" arbitrary: p r rule: less_induct)
  case less
  show ?case
  proof (cases "multipartSegments p")
    case (Some parts)
    have "walkSegments (butlast (tl parts)) r =
      walkLeaves (concat (map segmentLeaves (butlast (tl parts)))) r"
    proof (rule walkSegments_leaves_if)
      fix seg r'
      assume "seg \<in> set (butlast (tl parts))"
      then have "seg \<in> set parts" by (rule in_set_butlast_tl)
      with Some have "length (trim seg) < length p" by (rule segment_shorter)
      then show "parseMimePart (trim seg) r' = walkLeaves (leafParts (trim seg)) r'"
        by (rule less.hyps)
    qed
    then show ?thesis
      by (simp only: parseMimePart_segments[OF Some] leafParts_segments[OF Some])
  next
    case None
    show ?thesis
    proof (cases "isLeaf p")
      case True
      then show ?thesis by (simp add: leafParts_leaf split: sum.splits)
    next
      case False
      with None show ?thesis by (simp add: leafParts_neither parseMimePart_neither)
    qed
  qed
qed

lemma walkSegments_leaves:
  "walkSegments segs r = walkLeaves (concat (map segmentLeaves segs)) r"
  by (rule walkSegments_leaves_if) (rule parseMimePart_leaves)

lemma leafParts_isLeaf: "l \<in> set (leafParts p) \<Longrightarrow> isLeaf l"
proof (induction "length p" arbitrary: p l rule: less_induct)
  case less
  show ?case
  proof (cases "multipartSegments p")
    case (Some parts)
    from less.prems obtain seg where seg: "seg \<in> set (butlast (tl parts))"
      "l \<in> set (segmentLeaves seg)"
      unfolding leafParts_segments[OF Some] by auto
    from seg(2) have l: "l \<in> set (leafParts (trim seg))"
      by (simp add: segmentLeaves_def split: if_splits)
    from seg(1) have "seg \<in> set parts" by (rule in_set_butlast_tl)
    with Some have "length (trim seg) < length p" by (rule segment_shorter)
    from less.hyps[OF this l] show ?thesis .
  next
    case None
    show ?thesis
    proof (cases "isLeaf p")
      case True
      with less.prems show ?thesis by (simp add: leafParts_leaf)
    next
      case False
      with None less.prems show ?thesis by (simp add: leafParts_neither)
    qed
  qed
qed

lemma firstBody_Nil: "firstBody ty [] = []"
  by (simp add: firstBody_def)

lemma firstBody_Cons:
  "firstBody ty (l # ls) =
     (if leafType l = ty \<and> leafText l \<noteq> [] then leafText l else firstBody ty ls)"
  by (simp add: firstBody_def)

lemma parseLeaf_other_bodies:
  assumes "ct \<noteq> js ''text/plain''" and "ct \<noteq> js ''text/html''"
    and "parseLeaf h ct enc body r = Inr r'"
  shows "textBody r' = textBody r \<and> htmlBody r' = htmlBody r"
  using assms by (auto simp: parseLeaf_def Let_def split: if_splits sum.splits)

lemma leaf_bodies:
  assumes "isLeaf l" and "parseMimePart l r = Inr r'"
  shows "textBody r' =
      (if textBody r \<noteq> [] then textBody r
       else if leafType l = js ''text/plain'' then leafText l else []) \<and>
    htmlBody r' =
      (if htmlBody r \<noteq> [] then htmlBody r
       else if leafType l = js ''text/html'' then leafText l else [])"
proof -
  from assms(1) obtain i where i: "reSearch rxBlankLine l = Some i"
    and nm: "\<not> startsWith (getContentType (parseHeaders (take i l))) (js ''multipart/'')"
    by (cases "reSearch rxBlankLine l") (simp_all add: isLeaf_def)
  define h where "h = parseHeaders (take i l)"
  define body where "body = reStripPrefix rxBlankLine (drop i l)"
  have ty: "leafType l = getContentType h"
    and tx: "leafText l = decodeContent body (getEncoding h)"
    using i by (simp_all add: leafType_def leafText_def h_def body_def)
  have pl: "parseLeaf h (getContentType h) (getEncoding h) body r = Inr r'"
    using parseMimePart_leaf[OF i nm, of r] assms(2) by (simp add: h_def body_def)
  show ?thesis
  proof (cases "getContentType h = js ''text/plain''")
    case True
    from pl have "parseLeaf h (js ''text/plain'') (getEncoding h) body r = Inr r'"
      by (simp only: True)
    then have "Inr (if textBody r = [] then r\<lparr>textBody := leafText l\<rparr> else r) =
        (Inr r' :: error + ParsedEmail)"
      by (simp only: parseLeaf_text_plain tx)
    then have r': "r' = (if textBody r = [] then r\<lparr>textBody := leafText l\<rparr> else r)"
      by (simp only: sum.inject)
    have ty': "leafType l = js ''text/plain''" "leafType l \<noteq> js ''text/html''"
      using True text_html_neq_plain by (simp_all add: ty)
    show ?thesis
    proof (cases "textBody r = []")
      case True
      with r' ty' show ?thesis by simp
    next
      case False
      with r' ty' show ?thesis by simp
    qed
  next
    case np: False
    show ?thesis
    proof (cases "getContentType h = js ''text/html''")
      case True
      from pl have "parseLeaf h (js ''text/html'') (getEncoding h) body r = Inr r'"
        by (simp only: True)
      then have "Inr (if htmlBody r = [] then r\<lparr>htmlBody := leafText l\<rparr> else r) =
          (Inr r' :: error + ParsedEmail)"
        by (simp only: parseLeaf_text_html tx)
      then have r': "r' = (if htmlBody r = [] then r\<lparr>htmlBody := leafText l\<rparr> else r)"
        by (simp only: sum.inject)
      have ty': "leafType l = js ''text/html''" "leafType l \<noteq> js ''text/plain''"
        using True text_html_neq_plain by (simp_all add: ty)
      show ?thesis
      proof (cases "htmlBody r = []")
        case True
        with r' ty' show ?thesis by simp
      next
        case False
        with r' ty' show ?thesis by simp
      qed
    next
      case False
      from parseLeaf_other_bodies[OF np False pl] np False show ?thesis
        by (simp add: ty)
    qed
  qed
qed

lemma walkLeaves_bodies:
  assumes "\<And>l. l \<in> set ls \<Longrightarrow> isLeaf l" and "walkLeaves ls r = Inr r'"
  shows "textBody r' =
      (if textBody r \<noteq> [] then textBody r else firstBody (js ''text/plain'') ls) \<and>
    htmlBody r' =
      (if htmlBody r \<noteq> [] then htmlBody r else firstBody (js ''text/html'') ls)"
  using assms
proof (induction ls arbitrary: r)
  case Nil
  then show ?case by (simp add: firstBody_Nil)
next
  case (Cons l ls)
  from Cons.prems(2) obtain r1 where r1: "parseMimePart l r = Inr r1"
    and rest: "walkLeaves ls r1 = Inr r'"
    by (cases "parseMimePart l r") simp_all
  have leaf: "isLeaf l" using Cons.prems(1) by simp
  have IH: "textBody r' =
      (if textBody r1 \<noteq> [] then textBody r1 else firstBody (js ''text/plain'') ls) \<and>
    htmlBody r' =
      (if htmlBody r1 \<noteq> [] then htmlBody r1 else firstBody (js ''text/html'') ls)"
    using Cons.IH[OF _ rest] Cons.prems(1) by simp
  show ?case
    unfolding firstBody_Cons using IH leaf_bodies[OF leaf r1] by auto
qed

lemma parseEml_segments:
  assumes "multipartSegments eml = Some parts"
  obtains r0 where "attachments r0 = []" "textBody r0 = []" "htmlBody r0 = []"
    "parseEml eml = walkSegments (tl parts) r0"
proof -
  from assms obtain i boundary where f: "reSearch rxBlankLine eml = Some i"
      "startsWith (getContentType (parseHeaders (take i eml))) (js ''multipart/'')"
      "extractBoundary (getOr (parseHeaders (take i eml)) (js ''content-type'') []) = Some boundary"
      "boundary \<noteq> []"
      "parts = reSplit (rxBoundary boundary) (reStripPrefix rxBlankLine (drop i eml))"
    by (rule multipartSegments_SomeD)
  define headers where "headers = parseHeaders (take i eml)"
  define body where "body = reStripPrefix rxBlankLine (drop i eml)"
  define r1 where "r1 = emptyEmail
                 \<lparr>from := parseEmailAddresses (getOr headers (js ''from'') []),
                  to := parseEmailAddresses (getOr headers (js ''to'') []),
                  cc := parseEmailAddresses (getOr headers (js ''cc'') []),
                  bcc := parseEmailAddresses (getOr headers (js ''bcc'') []),
                  subject := getOr headers (js ''subject'') [],
                  messageId := filter (\<lambda>c. c \<noteq> 60 \<and> c \<noteq> 62) (getOr headers (js ''message-id'') [])\<rparr>"
  define r0 where "r0 = (case headers (js ''date'') of
                    None \<Rightarrow> r1
                  | Some dateStr \<Rightarrow>
                      if dateStr \<noteq> [] then
                        tryCatch (Inr (r1\<lparr>date := Some (NewDate dateStr)\<rparr>))
                          (\<lambda>e. r1\<lparr>date := None\<rparr>)
                      else r1)"
  have r0: "attachments r0 = []" "textBody r0 = []" "htmlBody r0 = []"
    by (simp_all add: r0_def r1_def emptyEmail_def tryCatch_def split: option.splits)
  have eq: "parseEml eml =
      (if startsWith (getContentType headers) (js ''multipart/'') then
         (case extractBoundary (getOr headers (js ''content-type'') []) of
            None \<Rightarrow> Inr r0
          | Some boundary \<Rightarrow>
              if boundary \<noteq> [] then topLoop (reSplit (rxBoundary boundary) body) 1 r0
              else Inr r0)
       else if getContentType headers = js ''text/plain'' then
         Inr (r0\<lparr>textBody := decodeContent body (getEncoding headers)\<rparr>)
       else if getContentType headers = js ''text/html'' then
         Inr (r0\<lparr>htmlBody := decodeContent body (getEncoding headers)\<rparr>)
       else Inr r0)"
    unfolding parseEml_def f(1) option.case Let_def headers_def body_def r0_def r1_def ..
  have m: "startsWith (getContentType headers) (js ''multipart/'')"
    and b: "extractBoundary (getOr headers (js ''content-type'') []) = Some boundary"
    using f(2,3) by (simp_all only: headers_def)
  have "parseEml eml = topLoop (reSplit (rxBoundary boundary) body) 1 r0"
    unfolding eq using m b f(4) by (simp only: if_True option.case simp_thms)
  then have "parseEml eml = walkSegments (tl parts) r0"
    by (simp add: topLoop_walk drop_Suc f(5) body_def)
  with r0 show ?thesis by (rule that)
qed

lemma walkSegments_skip:
  assumes "trim x = [] \<or> trim x = js ''--''"
  shows "walkSegments [x] r = Inr r"
  using assms by auto

lemma walkSegments_ends_cleanly:
  assumes "endsCleanly parts"
  shows "walkSegments (tl parts) r = walkSegments (butlast (tl parts)) r"
proof (cases "tl parts = []")
  case True
  then show ?thesis by simp
next
  case False
  then have l: "last (tl parts) = last parts" by (cases parts) simp_all
  from False assms have "trim (last parts) = [] \<or> trim (last parts) = js ''--''"
    by (simp add: endsCleanly_def)
  then have skip: "\<And>r'. walkSegments [last (tl parts)] r' = Inr r'"
    unfolding l by (rule walkSegments_skip)
  have "walkSegments (tl parts) r = walkSegments (butlast (tl parts) @ [last (tl parts)]) r"
    using False by simp
  also have "\<dots> = walkSegments (butlast (tl parts)) r"
    unfolding walkSegments_append skip by (simp split: sum.splits)
  finally show ?thesis .
qed



lemma parseMimePart_text_plain:
  assumes "reSearch rxBlankLine partText = Some i"
    and "parseHeaders (take i partText) = headers"
    and "getContentType headers = js ''text/plain''"
  shows "parseMimePart partText r =
     Inr (if textBody r = [] then
            r\<lparr>textBody := decodeContent (reStripPrefix rxBlankLine (drop i partText))
                             (getEncoding headers)\<rparr>
          else r)"
proof -
  have "\<not> startsWith (getContentType (parseHeaders (take i partText))) (js ''multipart/'')"
    using assms(2,3) text_not_multipart(1) by simp
  from parseMimePart_leaf[OF assms(1) this, of r] show ?thesis
    using assms(2,3) by (simp add: parseLeaf_text_plain)
qed

lemma parseMimePart_no_separator:
  "reSearch rxBlankLine partText = None \<Longrightarrow> parseMimePart partText r = Inr r"
  by (simp add: parseMimePart.simps[of partText])

lemma js_Cons_neq_Nil: "js (c # cs) \<noteq> []"
  by (simp add: js_def)


lemma parseMimePart_text_plain_at:
  assumes "reSearch rxBlankLine partText = Some i"
    and "getContentType (parseHeaders (take i partText)) = js ''text/plain''"
    and "decodeContent (reStripPrefix rxBlankLine (drop i partText))
           (getEncoding (parseHeaders (take i partText))) = decoded"
  shows "parseMimePart partText r =
     Inr (if textBody r = [] then r\<lparr>textBody := decoded\<rparr> else r)"
  using parseMimePart_text_plain[OF assms(1) refl assms(2), of r]
  by (simp only: assms(3))

section \<open>The walk over the parts: properties\<close>

text \<open>
  C3 (what the code does by design). When a multipart body is split on its boundary, the
  segment at index 0 is discarded at every level. Below the top level, in
  \<open>parseMimePart\<close>, the last segment is discarded too, and every segment between the first
  and the last is trimmed and, unless it is empty or the stub \<open>--\<close>, parsed as a part, in
  order. At the top level, in \<open>parseEml\<close>, the same holds when the split ends cleanly; the
  walk starts from a result that holds the header fields and has no body and no
  attachment. What \<open>parseEml\<close> does with a last segment that has content is not stated
  here.
\<close>

theorem inner_segments_are_walked:
  "(multipartSegments partText = Some parts \<longrightarrow>
      parseMimePart partText r = walkSegments (butlast (tl parts)) r) \<and>
   (multipartSegments eml = Some segments \<longrightarrow> endsCleanly segments \<longrightarrow>
      (\<exists>r0. textBody r0 = [] \<and> htmlBody r0 = [] \<and> attachments r0 = [] \<and>
            parseEml eml = walkSegments (butlast (tl segments)) r0))"
proof (intro conjI impI)
  assume "multipartSegments partText = Some parts"
  then show "parseMimePart partText r = walkSegments (butlast (tl parts)) r"
    by (rule parseMimePart_segments)
next
  assume s: "multipartSegments eml = Some segments" and c: "endsCleanly segments"
  from s obtain r0 where r0: "attachments r0 = []" "textBody r0 = []" "htmlBody r0 = []"
    "parseEml eml = walkSegments (tl segments) r0"
    by (rule parseEml_segments)
  from r0(4) have "parseEml eml = walkSegments (butlast (tl segments)) r0"
    by (simp only: walkSegments_ends_cleanly[OF c])
  with r0(1-3) show "\<exists>r0. textBody r0 = [] \<and> htmlBody r0 = [] \<and> attachments r0 = [] \<and>
            parseEml eml = walkSegments (butlast (tl segments)) r0"
    by blast
qed


text \<open>
  C6 (amended). \<open>textBody\<close> holds the decoded content of the first leaf of the
  depth-first walk whose content type is \<open>text/plain\<close> and whose decoded content is not
  empty, and it is empty when there is no such leaf; a leaf is a part that has a blank
  line and is not a multipart. Every other \<open>text/plain\<close> part is ignored. This holds for
  \<open>parseMimePart\<close> on any part, onto a result whose \<open>textBody\<close> is empty (one that is set
  is kept), and for \<open>parseEml\<close> on a multipart message whose top-level split ends
  cleanly. The same holds for \<open>text/html\<close> and \<open>htmlBody\<close>.
\<close>

theorem first_leaf_body_wins:
  "(parseMimePart p r = Inr r' \<longrightarrow>
      textBody r' =
        (if textBody r \<noteq> [] then textBody r else firstBody (js ''text/plain'') (leafParts p)) \<and>
      htmlBody r' =
        (if htmlBody r \<noteq> [] then htmlBody r else firstBody (js ''text/html'') (leafParts p))) \<and>
   (multipartSegments eml = Some segments \<longrightarrow> endsCleanly segments \<longrightarrow>
    parseEml eml = Inr result \<longrightarrow>
      textBody result = firstBody (js ''text/plain'') (leafParts eml) \<and>
      htmlBody result = firstBody (js ''text/html'') (leafParts eml))"
proof (intro conjI impI)
  assume "parseMimePart p r = Inr r'"
  then have w: "walkLeaves (leafParts p) r = Inr r'"
    by (simp only: parseMimePart_leaves)
  from walkLeaves_bodies[OF leafParts_isLeaf w]
  show "textBody r' =
        (if textBody r \<noteq> [] then textBody r else firstBody (js ''text/plain'') (leafParts p))"
    and "htmlBody r' =
        (if htmlBody r \<noteq> [] then htmlBody r else firstBody (js ''text/html'') (leafParts p))"
    by simp_all
next
  assume s: "multipartSegments eml = Some segments" and c: "endsCleanly segments"
    and p: "parseEml eml = Inr result"
  from s obtain r0 where r0: "attachments r0 = []" "textBody r0 = []" "htmlBody r0 = []"
    "parseEml eml = walkSegments (tl segments) r0"
    by (rule parseEml_segments)
  from r0(4) p have "walkSegments (butlast (tl segments)) r0 = Inr result"
    by (simp only: walkSegments_ends_cleanly[OF c])
  then have w: "walkLeaves (leafParts eml) r0 = Inr result"
    by (simp only: walkSegments_leaves leafParts_segments[OF s])
  from walkLeaves_bodies[OF leafParts_isLeaf w] r0(2,3)
  show "textBody result = firstBody (js ''text/plain'') (leafParts eml)"
    and "htmlBody result = firstBody (js ''text/html'') (leafParts eml)"
    by simp_all
qed


section \<open>The parser on concrete documents\<close>

lemmas all_eval = js_eval rx_eval str_eval hdr_eval leaf_eval walk_eval uri_eval Let_def
  parseEmailAddresses_def removeWhiteSpace_def decodeBase64_def bufferFromBase64_def
  unbase64_def bufferToString_def bufferFromBinary_def utf8CodePoints.simps decimal.simps

text \<open>
  C1 (the code at a failing input). The claim is that \<open>parseEml\<close> returns a result for
  every input and that no exception leaves it, the extraction of the file name included.
  On a message whose part declares the file name \<open>100%.pdf\<close>, \<open>getFilename\<close> passes the
  name to \<open>decodeURIComponent\<close>, which throws a \<open>URIError\<close>; nothing catches it, and
  \<open>parseEml\<close> returns no result.
\<close>

theorem parseEml_raises_URIError: "parseEml uriErrorMail = Inl URIError"
  by (simp add: uriErrorMail_def all_eval)

text \<open>
  C4 (the code at a failing input). The claim is that a Date header that cannot be parsed
  leaves the field \<open>date\<close> \<open>null\<close>. \<open>new Date\<close> of such a string does not throw: it
  yields a \<open>Date\<close> object (an invalid one), which is stored; the \<open>catch\<close> that would store
  \<open>null\<close> is never entered.
\<close>

theorem invalid_date_is_not_null:
  "parseEml badDateMail =
     Inr (emptyEmail\<lparr>date := Some (NewDate (js ''not a date'')), textBody := js ''x''\<rparr>)"
  by (simp add: badDateMail_def all_eval)



lemma literal_facts:
  "\<not> startsWith (js ''text/csv'') (js ''multipart/'')"
  "startsWith (js ''text/csv'') (js ''text/'')"
  "js ''text/csv'' \<noteq> js ''text/plain''"
  "js ''text/csv'' \<noteq> js ''text/html''"
  "js ''inline'' \<noteq> js ''attachment''"
  "[] \<noteq> js ''attachment''"
  "js ''attachment_'' @ decimal (length (attachments emptyEmail) + 1) = js ''attachment_1''"
  "attachments emptyEmail @ xs = xs"
  "textBody emptyEmail = []"
  "htmlBody emptyEmail = []"
  by (simp_all add: emptyEmail_def js_eval decimal.simps)

lemma plain_parse:
  "parseMimePart (js ''A: b'' @ [LF, LF] @ body) r =
     Inr (if textBody r = [] then r\<lparr>textBody := body\<rparr> else r)"
  by (simp add: all_eval)

lemma plain_leaf:
  "isLeaf (js ''A: b'' @ [LF, LF] @ body)"
  "leafType (js ''A: b'' @ [LF, LF] @ body) = js ''text/plain''"
  "leafText (js ''A: b'' @ [LF, LF] @ body) = body"
  by (simp_all add: isLeaf_def leafType_def leafText_def all_eval)

lemma html_parse:
  "parseMimePart (js ''Content-Type: text/html'' @ [LF, LF] @ body) r =
     Inr (if htmlBody r = [] then r\<lparr>htmlBody := body\<rparr> else r)"
  by (simp add: all_eval)

lemma html_leaf:
  "isLeaf (js ''Content-Type: text/html'' @ [LF, LF] @ body)"
  "leafType (js ''Content-Type: text/html'' @ [LF, LF] @ body) = js ''text/html''"
  "leafText (js ''Content-Type: text/html'' @ [LF, LF] @ body) = body"
  by (simp_all add: isLeaf_def leafType_def leafText_def all_eval)

lemma onePart_parse:
  "parseMimePart onePart r = Inr (if textBody r = [] then r\<lparr>textBody := js ''one''\<rparr> else r)"
  unfolding onePart_def by (rule plain_parse)

lemma twoPart_parse:
  "parseMimePart twoPart r = Inr (if textBody r = [] then r\<lparr>textBody := js ''two''\<rparr> else r)"
  unfolding twoPart_def by (rule plain_parse)

lemma latePart_parse:
  "parseMimePart latePart r = Inr (if htmlBody r = [] then r\<lparr>htmlBody := js ''late''\<rparr> else r)"
  unfolding latePart_def by (rule html_parse)

lemma emptyPart_sep: "reSearch rxBlankLine emptyPart = Some 33"
  by (simp add: emptyPart_def all_eval)

lemma emptyPart_facts:
  "getContentType (parseHeaders (take 33 emptyPart)) = js ''text/plain''"
  "decodeContent (reStripPrefix rxBlankLine (drop 33 emptyPart))
     (getEncoding (parseHeaders (take 33 emptyPart))) = []"
  by (simp_all add: emptyPart_def all_eval)

lemma emptyPart_parse:
  "parseMimePart emptyPart r = Inr (if textBody r = [] then r\<lparr>textBody := []\<rparr> else r)"
  using emptyPart_sep emptyPart_facts by (rule parseMimePart_text_plain_at)

lemma part_leaves:
  "isLeaf onePart" "leafType onePart = js ''text/plain''" "leafText onePart = js ''one''"
  "isLeaf twoPart" "leafType twoPart = js ''text/plain''" "leafText twoPart = js ''two''"
  "isLeaf latePart" "leafType latePart = js ''text/html''" "leafText latePart = js ''late''"
  unfolding onePart_def twoPart_def latePart_def by (rule plain_leaf html_leaf)+

lemma emptyPart_leaf:
  "isLeaf emptyPart" "leafType emptyPart = js ''text/plain''" "leafText emptyPart = []"
  using emptyPart_sep emptyPart_facts text_not_multipart(1)
  by (simp_all add: isLeaf_def leafType_def leafText_def)

lemma hello_sep: "reSearch rxBlankLine (js ''hello'') = None"
  by (simp add: all_eval)

lemma segment_trims:
  "trim [] = []"
  "trim (LF # onePart @ [LF]) = onePart"
  "trim (LF # twoPart @ [LF]) = twoPart"
  "trim (LF # twoPart) = twoPart"
  "trim (LF # latePart @ [LF]) = latePart"
  "trim (LF # latePart) = latePart"
  "trim (LF # emptyPart @ [LF]) = emptyPart"
  "trim (LF # LF # js ''hello'' @ [LF]) = js ''hello''"
  by (simp_all add: onePart_def twoPart_def latePart_def emptyPart_def js_eval str_eval)

lemma part_not_stub:
  "onePart \<noteq> []" "onePart \<noteq> js ''--''"
  "twoPart \<noteq> []" "twoPart \<noteq> js ''--''"
  "latePart \<noteq> []" "latePart \<noteq> js ''--''"
  "emptyPart \<noteq> []" "emptyPart \<noteq> js ''--''"
  "js ''hello'' \<noteq> []" "js ''hello'' \<noteq> js ''--''"
  "[] \<noteq> js ''--''"
  by (simp_all add: onePart_def twoPart_def latePart_def emptyPart_def js_eval)

lemma mixed_sep: "reSearch rxBlankLine (mixedHeader @ [LF, LF] @ body) = Some 41"
  by (simp add: mixedHeader_def all_eval)

lemma mixed_headers:
  "parseHeaders (take 41 (mixedHeader @ [LF, LF] @ body)) =
     [js ''content-type'' \<mapsto> js ''multipart/mixed; boundary=B'']"
  by (simp add: mixedHeader_def all_eval)

lemma mixed_body: "reStripPrefix rxBlankLine (drop 41 (mixedHeader @ [LF, LF] @ body)) = body"
  by (simp add: mixedHeader_def all_eval)

lemma mixed_type:
  "startsWith (getContentType [js ''content-type'' \<mapsto> js ''multipart/mixed; boundary=B''])
     (js ''multipart/'')"
  "extractBoundary (getOr [js ''content-type'' \<mapsto> js ''multipart/mixed; boundary=B'']
     (js ''content-type'') []) = Some (js ''B'')"
  "js ''B'' \<noteq> []"
  by (simp_all add: all_eval)

lemma mixed_fields:
  "parseEmailAddresses (getOr [js ''content-type'' \<mapsto> v] (js ''from'') []) = []"
  "parseEmailAddresses (getOr [js ''content-type'' \<mapsto> v] (js ''to'') []) = []"
  "parseEmailAddresses (getOr [js ''content-type'' \<mapsto> v] (js ''cc'') []) = []"
  "parseEmailAddresses (getOr [js ''content-type'' \<mapsto> v] (js ''bcc'') []) = []"
  "getOr [js ''content-type'' \<mapsto> v] (js ''subject'') [] = []"
  "getOr [js ''content-type'' \<mapsto> v] (js ''message-id'') [] = []"
  "[js ''content-type'' \<mapsto> v] (js ''date'') = None"
  by (simp_all add: getOr_def parseEmailAddresses_def js_eval)

text \<open>
  A message whose header is the one line
  \<^verbatim>\<open>Content-Type: multipart/mixed; boundary=B\<close>, whatever its body: the body is split
  on \<open>--B\<close>, and \<open>parseEml\<close> walks all the segments but the first, from the empty result.
\<close>

lemma mixed_segments:
  "multipartSegments (mixedHeader @ [LF, LF] @ body) = Some (reSplit (rxBoundary (js ''B'')) body)"
  unfolding multipartSegments_def mixed_sep option.case mixed_headers mixed_body
  by (simp only: mixed_type if_True option.case simp_thms)

lemma mixed_parse:
  "parseEml (mixedHeader @ [LF, LF] @ body) =
     walkSegments (tl (reSplit (rxBoundary (js ''B'')) body)) emptyEmail"
proof -
  have r: "emptyEmail\<lparr>from := [], to := [], cc := [], bcc := [], subject := [],
      messageId := filter (\<lambda>c. c \<noteq> 60 \<and> c \<noteq> 62) []\<rparr> = emptyEmail"
    by (simp add: emptyEmail_def)
  have "parseEml (mixedHeader @ [LF, LF] @ body) =
      topLoop (reSplit (rxBoundary (js ''B'')) body) 1 emptyEmail"
    unfolding parseEml_def mixed_sep option.case Let_def mixed_headers mixed_body mixed_fields r
    by (simp only: mixed_type if_True option.case simp_thms)
  then show ?thesis by (simp add: topLoop_walk drop_Suc)
qed

lemma alternative_segments:
  "multipartSegments (alternativeHeader @ [LF, LF] @ body) =
     Some (reSplit (rxBoundary (js ''N'')) body)"
  by (simp add: alternativeHeader_def multipartSegments_def all_eval)








































lemma epilogue_split:
  "reSplit (rxBoundary (js ''B'')) epilogueBody = [[], [LF] @ onePart @ [LF], [LF] @ latePart]"
  by (simp add: epilogueBody_def onePart_def latePart_def all_eval)

lemma epilogueMail_segments:
  "multipartSegments epilogueMail = Some [[], [LF] @ onePart @ [LF], [LF] @ latePart]"
  unfolding epilogueMail_def mixed_segments epilogue_split ..

lemma epilogueMail_result:
  "parseEml epilogueMail = Inr (emptyEmail\<lparr>textBody := js ''one'', htmlBody := js ''late''\<rparr>)"
  unfolding epilogueMail_def mixed_parse epilogue_split
  by (simp add: segment_trims part_not_stub onePart_parse latePart_parse literal_facts)

lemma epilogueMail_as_part:
  "parseMimePart epilogueMail emptyEmail = Inr (emptyEmail\<lparr>textBody := js ''one''\<rparr>)"
  unfolding parseMimePart_segments[OF epilogueMail_segments]
  by (simp add: segment_trims part_not_stub onePart_parse literal_facts)

lemma late_segment:
  "trim ([LF] @ latePart) = latePart"
  "latePart \<noteq> []" "latePart \<noteq> js ''--''"
  "parseMimePart latePart (emptyEmail\<lparr>textBody := js ''one''\<rparr>) =
     Inr (emptyEmail\<lparr>textBody := js ''one'', htmlBody := js ''late''\<rparr>)"
  by (simp_all add: segment_trims part_not_stub latePart_parse literal_facts)

text \<open>
  Against C3 as stated: one text, with one part and an epilogue that has the form of a
  \<open>text/html\<close> part, parsed as a message and parsed as a part of a message. The split
  yields three segments. The last of them is neither empty nor the stub \<open>--\<close>, and parsing
  it sets the HTML body. \<open>parseEml\<close>, at the top level, parses it; \<open>parseMimePart\<close>, below
  the top level, discards it.
\<close>

theorem epilogue_parsed_at_top_discarded_below:
  "multipartSegments epilogueMail = Some [[], [LF] @ onePart @ [LF], [LF] @ latePart] \<and>
   trim ([LF] @ latePart) = latePart \<and> latePart \<noteq> [] \<and> latePart \<noteq> js ''--'' \<and>
   parseMimePart latePart (emptyEmail\<lparr>textBody := js ''one''\<rparr>) =
     Inr (emptyEmail\<lparr>textBody := js ''one'', htmlBody := js ''late''\<rparr>) \<and>
   parseEml epilogueMail = Inr (emptyEmail\<lparr>textBody := js ''one'', htmlBody := js ''late''\<rparr>) \<and>
   parseMimePart epilogueMail emptyEmail = Inr (emptyEmail\<lparr>textBody := js ''one''\<rparr>)"
  by (intro conjI epilogueMail_segments late_segment epilogueMail_result epilogueMail_as_part)

lemma alternative_split:
  "reSplit (rxBoundary (js ''N'')) alternativeBody =
     [[], [LF] @ onePart @ [LF], [LF] @ latePart @ [LF], []]"
  by (simp add: alternativeBody_def onePart_def latePart_def all_eval)

lemma alternativePart_segments:
  "multipartSegments alternativePart =
     Some [[], [LF] @ onePart @ [LF], [LF] @ latePart @ [LF], []]"
  unfolding alternativePart_def alternative_segments alternative_split ..

lemma alternativePart_trim:
  "trim (LF # alternativePart @ [LF]) = alternativePart"
  "alternativePart \<noteq> []" "alternativePart \<noteq> js ''--''"
  by (simp_all add: alternativePart_def alternativeHeader_def alternativeBody_def onePart_def
      latePart_def js_eval str_eval)

lemma twoLevel_split:
  "reSplit (rxBoundary (js ''B'')) twoLevelBody =
     [[], [LF] @ alternativePart @ [LF], [LF] @ twoPart @ [LF], []]"
  by (simp add: twoLevelBody_def alternativePart_def alternativeHeader_def alternativeBody_def
      onePart_def twoPart_def latePart_def all_eval)

lemma twoLevelMail_segments:
  "multipartSegments twoLevelMail =
     Some [[], [LF] @ alternativePart @ [LF], [LF] @ twoPart @ [LF], []]"
  unfolding twoLevelMail_def mixed_segments twoLevel_split ..

lemma twoLevelMail_ends:
  "endsCleanly [[], [LF] @ alternativePart @ [LF], [LF] @ twoPart @ [LF], []]"
  by (simp add: endsCleanly_def segment_trims)

text \<open>
  The walk at a multipart with an epilogue, parsed as a part, where the one segment
  between the first and the last is parsed, and at a message with two parts and nothing
  after the closing boundary, where the two parts are parsed in order.
\<close>

theorem inner_segments_are_walked_witness:
  "multipartSegments epilogueMail = Some [[], [LF] @ onePart @ [LF], [LF] @ latePart] \<and>
   parseMimePart epilogueMail emptyEmail = walkSegments [[LF] @ onePart @ [LF]] emptyEmail \<and>
   multipartSegments twoLevelMail =
     Some [[], [LF] @ alternativePart @ [LF], [LF] @ twoPart @ [LF], []] \<and>
   endsCleanly [[], [LF] @ alternativePart @ [LF], [LF] @ twoPart @ [LF], []] \<and>
   (\<exists>r0. textBody r0 = [] \<and> htmlBody r0 = [] \<and> attachments r0 = [] \<and>
      parseEml twoLevelMail =
        walkSegments [[LF] @ alternativePart @ [LF], [LF] @ twoPart @ [LF]] r0)"
proof -
  note T = inner_segments_are_walked[where partText = epilogueMail and r = emptyEmail
      and parts = "[[], [LF] @ onePart @ [LF], [LF] @ latePart]"
      and eml = twoLevelMail
      and segments = "[[], [LF] @ alternativePart @ [LF], [LF] @ twoPart @ [LF], []]"]
  from T[THEN conjunct1, THEN mp, OF epilogueMail_segments]
  have A: "parseMimePart epilogueMail emptyEmail =
     walkSegments [[LF] @ onePart @ [LF]] emptyEmail"
    by (simp only: butlast.simps list.sel if_False if_True list.distinct simp_thms)
  from T[THEN conjunct2, THEN mp, THEN mp, OF twoLevelMail_segments twoLevelMail_ends]
  have B: "\<exists>r0. textBody r0 = [] \<and> htmlBody r0 = [] \<and> attachments r0 = [] \<and>
      parseEml twoLevelMail =
        walkSegments [[LF] @ alternativePart @ [LF], [LF] @ twoPart @ [LF]] r0"
    by (simp only: butlast.simps list.sel if_False if_True list.distinct simp_thms)
  show ?thesis
    by (intro conjI epilogueMail_segments A twoLevelMail_segments twoLevelMail_ends B)
qed

lemma emptyFirst_split:
  "reSplit (rxBoundary (js ''B'')) emptyFirstBody =
     [[], [LF] @ emptyPart @ [LF], [LF] @ twoPart @ [LF], []]"
  by (simp add: emptyFirstBody_def emptyPart_def twoPart_def all_eval)

lemma emptyFirstMail_segments:
  "multipartSegments emptyFirstMail =
     Some [[], [LF] @ emptyPart @ [LF], [LF] @ twoPart @ [LF], []]"
  unfolding emptyFirstMail_def mixed_segments emptyFirst_split ..

lemma emptyFirstMail_result:
  "parseEml emptyFirstMail = Inr (emptyEmail\<lparr>textBody := js ''two''\<rparr>)"
  unfolding emptyFirstMail_def mixed_parse emptyFirst_split
  by (simp add: segment_trims part_not_stub emptyPart_parse twoPart_parse emptyEmail_def)

lemma headerlessFirst_split:
  "reSplit (rxBoundary (js ''B'')) headerlessFirstBody =
     [[], [LF, LF] @ js ''hello'' @ [LF], [LF] @ twoPart @ [LF], []]"
  by (simp add: headerlessFirstBody_def twoPart_def all_eval)

lemma headerlessFirstMail_segments:
  "multipartSegments headerlessFirstMail =
     Some [[], [LF, LF] @ js ''hello'' @ [LF], [LF] @ twoPart @ [LF], []]"
  unfolding headerlessFirstMail_def mixed_segments headerlessFirst_split ..

lemma hello_trim: "trim ([LF, LF] @ js ''hello'' @ [LF]) = js ''hello''"
  by (simp add: segment_trims)

lemma headerlessFirstMail_result:
  "parseEml headerlessFirstMail = Inr (emptyEmail\<lparr>textBody := js ''two''\<rparr>)"
  unfolding headerlessFirstMail_def mixed_parse headerlessFirst_split
  by (simp add: segment_trims part_not_stub parseMimePart_no_separator[OF hello_sep]
      twoPart_parse literal_facts)

lemma emptyPartsEpilogue_split:
  "reSplit (rxBoundary (js ''B'')) emptyPartsEpilogueBody =
     [[], [LF] @ emptyPart @ [LF], [LF] @ emptyPart @ [LF], [LF] @ twoPart]"
  by (simp add: emptyPartsEpilogueBody_def emptyPart_def twoPart_def all_eval)

lemma emptyPartsEpilogueMail_segments:
  "multipartSegments emptyPartsEpilogueMail =
     Some [[], [LF] @ emptyPart @ [LF], [LF] @ emptyPart @ [LF], [LF] @ twoPart]"
  unfolding emptyPartsEpilogueMail_def mixed_segments emptyPartsEpilogue_split ..

lemma emptyPartsEpilogueMail_result:
  "parseEml emptyPartsEpilogueMail = Inr (emptyEmail\<lparr>textBody := js ''two''\<rparr>)"
  unfolding emptyPartsEpilogueMail_def mixed_parse emptyPartsEpilogue_split
  by (simp add: segment_trims part_not_stub emptyPart_parse twoPart_parse emptyEmail_def)

text \<open>
  Against C6 as stated, three messages with two \<open>text/plain\<close> parts. In the first, the
  first part decodes to the empty string, and \<open>textBody\<close> holds the content of the second
  part. In the second, the first part has no header; it starts with the blank line, which
  trimming removes, so that no blank line is left and the part is dropped: \<open>textBody\<close>
  holds the content of the second part. In the third, both parts decode to the empty
  string, and \<open>textBody\<close> holds the text that follows the closing boundary.
\<close>

theorem first_text_part_does_not_win:
  "(multipartSegments emptyFirstMail =
      Some [[], [LF] @ emptyPart @ [LF], [LF] @ twoPart @ [LF], []] \<and>
    leafType emptyPart = js ''text/plain'' \<and> leafText emptyPart = [] \<and>
    leafType twoPart = js ''text/plain'' \<and> leafText twoPart = js ''two'' \<and>
    parseEml emptyFirstMail = Inr (emptyEmail\<lparr>textBody := js ''two''\<rparr>)) \<and>
   (multipartSegments headerlessFirstMail =
      Some [[], [LF, LF] @ js ''hello'' @ [LF], [LF] @ twoPart @ [LF], []] \<and>
    trim ([LF, LF] @ js ''hello'' @ [LF]) = js ''hello'' \<and>
    reSearch rxBlankLine (js ''hello'') = None \<and>
    parseEml headerlessFirstMail = Inr (emptyEmail\<lparr>textBody := js ''two''\<rparr>)) \<and>
   (multipartSegments emptyPartsEpilogueMail =
      Some [[], [LF] @ emptyPart @ [LF], [LF] @ emptyPart @ [LF], [LF] @ twoPart] \<and>
    parseEml emptyPartsEpilogueMail = Inr (emptyEmail\<lparr>textBody := js ''two''\<rparr>))"
  by (intro conjI emptyFirstMail_segments emptyPart_leaf(2,3) part_leaves(5,6)
      emptyFirstMail_result headerlessFirstMail_segments hello_trim hello_sep
      headerlessFirstMail_result emptyPartsEpilogueMail_segments emptyPartsEpilogueMail_result)

lemma twoLevelMail_result:
  "parseEml twoLevelMail =
     Inr (emptyEmail\<lparr>textBody := js ''one'', htmlBody := js ''late''\<rparr>)"
  unfolding twoLevelMail_def mixed_parse twoLevel_split
  by (simp add: segment_trims part_not_stub alternativePart_trim
      parseMimePart_segments[OF alternativePart_segments]
      onePart_parse twoPart_parse latePart_parse literal_facts js_Cons_neq_Nil)

lemma alternativePart_leaves: "leafParts alternativePart = [onePart, latePart]"
  unfolding leafParts_segments[OF alternativePart_segments]
  by (simp add: segmentLeaves_def segment_trims part_not_stub leafParts_leaf part_leaves)

lemma twoLevelMail_leaves: "leafParts twoLevelMail = [onePart, latePart, twoPart]"
  unfolding leafParts_segments[OF twoLevelMail_segments]
  by (simp add: segmentLeaves_def segment_trims part_not_stub alternativePart_trim
      alternativePart_leaves leafParts_leaf part_leaves)

lemma alternativePart_result:
  "parseMimePart alternativePart (emptyEmail\<lparr>textBody := js ''zero''\<rparr>) =
     Inr (emptyEmail\<lparr>textBody := js ''zero'', htmlBody := js ''late''\<rparr>)"
  unfolding parseMimePart_segments[OF alternativePart_segments]
  by (simp add: segment_trims part_not_stub onePart_parse latePart_parse literal_facts
      js_Cons_neq_Nil)

text \<open>
  A message that holds a \<open>multipart/alternative\<close>, with a \<open>text/plain\<close> part \<open>one\<close> and a
  \<open>text/html\<close> part, and then a second \<open>text/plain\<close> part \<open>two\<close>: the walk meets three
  leaves, \<open>textBody\<close> is \<open>one\<close>, and \<open>two\<close> is ignored. The \<open>multipart/alternative\<close> alone,
  on a result whose \<open>textBody\<close> is set: the text body stays, the HTML body is set.
\<close>

theorem first_leaf_body_wins_witness:
  "multipartSegments twoLevelMail =
     Some [[], [LF] @ alternativePart @ [LF], [LF] @ twoPart @ [LF], []] \<and>
   endsCleanly [[], [LF] @ alternativePart @ [LF], [LF] @ twoPart @ [LF], []] \<and>
   parseEml twoLevelMail =
     Inr (emptyEmail\<lparr>textBody := js ''one'', htmlBody := js ''late''\<rparr>) \<and>
   leafParts twoLevelMail = [onePart, latePart, twoPart] \<and>
   leafText onePart = js ''one'' \<and> leafText latePart = js ''late'' \<and>
   leafText twoPart = js ''two'' \<and>
   firstBody (js ''text/plain'') (leafParts twoLevelMail) = js ''one'' \<and>
   firstBody (js ''text/html'') (leafParts twoLevelMail) = js ''late'' \<and>
   parseMimePart alternativePart (emptyEmail\<lparr>textBody := js ''zero''\<rparr>) =
     Inr (emptyEmail\<lparr>textBody := js ''zero'', htmlBody := js ''late''\<rparr>) \<and>
   leafParts alternativePart = [onePart, latePart] \<and>
   firstBody (js ''text/html'') (leafParts alternativePart) = js ''late''"
proof -
  note T = first_leaf_body_wins[where p = alternativePart
      and r = "emptyEmail\<lparr>textBody := js ''zero''\<rparr>"
      and r' = "emptyEmail\<lparr>textBody := js ''zero'', htmlBody := js ''late''\<rparr>"
      and eml = twoLevelMail
      and segments = "[[], [LF] @ alternativePart @ [LF], [LF] @ twoPart @ [LF], []]"
      and result = "emptyEmail\<lparr>textBody := js ''one'', htmlBody := js ''late''\<rparr>"]
  from T[THEN conjunct2, THEN mp, THEN mp, THEN mp,
      OF twoLevelMail_segments twoLevelMail_ends twoLevelMail_result]
  have A: "firstBody (js ''text/plain'') (leafParts twoLevelMail) = js ''one''"
    "firstBody (js ''text/html'') (leafParts twoLevelMail) = js ''late''"
    by simp_all
  from T[THEN conjunct1, THEN mp, OF alternativePart_result]
  have B: "firstBody (js ''text/html'') (leafParts alternativePart) = js ''late''"
    by (simp add: literal_facts)
  show ?thesis
    by (intro conjI twoLevelMail_segments twoLevelMail_ends twoLevelMail_result
        twoLevelMail_leaves part_leaves(3,6,9) A alternativePart_result alternativePart_leaves B)
qed



end
